theory Spec2Isabelle
  imports Complex_Main
begin

section \<open>Seismic cube processor: the data model\<close>

text \<open>
  The development embeds \<^verbatim>\<open>SeismicCubeProcessor\<close> and the \<^verbatim>\<open>get_slice\<close> route of
  \<^verbatim>\<open>app.py\<close>. A floating-point number is a finite value or one of the three special
  values; finite values are modelled as reals and arithmetic on them is exact (rounding
  and overflow are not modelled).
\<close>

datatype fl = Fin real | PInf | NInf | NaN

fun is_finite :: "fl \<Rightarrow> bool" where
  "is_finite (Fin x) = True"
| "is_finite PInf = False"
| "is_finite NInf = False"
| "is_finite NaN = False"

text \<open>\<^verbatim>\<open>np.nan_to_num(v, nan=0.0, posinf=0.0, neginf=0.0)\<close> on one element.\<close>

fun nan_to_num :: "fl \<Rightarrow> fl" where
  "nan_to_num (Fin x) = Fin x"
| "nan_to_num PInf = Fin 0"
| "nan_to_num NInf = Fin 0"
| "nan_to_num NaN = Fin 0"

text \<open>
  A trace header as \<^verbatim>\<open>load_segy_file\<close> reads it: each field is an integer, or
  \<open>None\<close> when reading it raises.
\<close>

record trace_header =
  INLINE_3D :: "int option"
  CROSSLINE_3D :: "int option"
  CDP_X :: "int option"
  CDP_Y :: "int option"
  SourceX :: "int option"
  SourceY :: "int option"

text \<open>
  One trace of the file: \<^verbatim>\<open>f.header[i]\<close> and \<^verbatim>\<open>f.trace[i]\<close>, each \<open>None\<close> when
  the read raises.
\<close>

record segy_trace =
  header :: "trace_header option"
  trace :: "fl list option"

text \<open>The opened file: \<^verbatim>\<open>f.samples\<close> and the traces, \<^verbatim>\<open>n_traces = len(f.trace)\<close>.\<close>

record segy_file =
  samples :: "real list"
  traces :: "segy_trace list"

section \<open>Trace Locator (lines 118-153)\<close>

text \<open>\<^verbatim>\<open>grid_size = int(np.sqrt(n_traces))\<close>.\<close>

definition grid_size :: "nat \<Rightarrow> nat" where
  "grid_size n_traces = nat \<lfloor>sqrt (real n_traces)\<rfloor>"

text \<open>
  The synthesized placement with its zero coordinates; \<open>None\<close> is the
  \<^verbatim>\<open>ZeroDivisionError\<close> of \<^verbatim>\<open>i // grid_size\<close>.
\<close>

definition fallback_placement :: "nat \<Rightarrow> nat \<Rightarrow> (int \<times> int \<times> int \<times> int) option" where
  "fallback_placement n_traces i =
     (let g = grid_size n_traces
      in if g = 0 then None
         else Some (int i div int g + 1, int i mod int g + 1, 0, 0))"

text \<open>The inner \<^verbatim>\<open>try\<close> of lines 125-134.\<close>

definition resolve_coords :: "trace_header \<Rightarrow> int \<times> int" where
  "resolve_coords h =
     (case CDP_X h of None \<Rightarrow> (0, 0)
      | Some x \<Rightarrow>
     (case CDP_Y h of None \<Rightarrow> (0, 0)
      | Some y \<Rightarrow>
        if x = 0 \<and> y = 0
        then (case SourceX h of None \<Rightarrow> (0, 0)
              | Some sx \<Rightarrow> (case SourceY h of None \<Rightarrow> (0, 0) | Some sy \<Rightarrow> (sx, sy)))
        else (x, y)))"

text \<open>
  The body of the header loop for trace \<open>i\<close>: the tuple appended to
  \<^verbatim>\<open>inlines, xlines, x_coords, y_coords\<close>. Every exception of the \<^verbatim>\<open>try\<close> body
  leads to the handler, which synthesizes the placement.
\<close>

definition locate :: "nat \<Rightarrow> nat \<Rightarrow> trace_header option \<Rightarrow> (int \<times> int \<times> int \<times> int) option" where
  "locate n_traces i hd_opt =
     (case hd_opt of None \<Rightarrow> fallback_placement n_traces i
      | Some h \<Rightarrow>
     (case INLINE_3D h of None \<Rightarrow> fallback_placement n_traces i
      | Some inline \<Rightarrow>
     (case CROSSLINE_3D h of None \<Rightarrow> fallback_placement n_traces i
      | Some xline \<Rightarrow>
        (let (x_coord, y_coord) = resolve_coords h
         in if inline \<noteq> 0 \<and> xline \<noteq> 0
            then Some (inline, xline, x_coord, y_coord)
            else fallback_placement n_traces i))))"

text \<open>Whether the header read of a trace yields both ids non-zero.\<close>

definition ids_nonzero :: "trace_header option \<Rightarrow> bool" where
  "ids_nonzero hd_opt =
     (case hd_opt of None \<Rightarrow> False
      | Some h \<Rightarrow>
        (case (INLINE_3D h, CROSSLINE_3D h) of
           (Some inline, Some xline) \<Rightarrow> inline \<noteq> 0 \<and> xline \<noteq> 0
         | _ \<Rightarrow> False))"

text \<open>The header loop: one tuple per trace, or \<open>None\<close> when an exception leaves the loop.\<close>

fun collect :: "'a option list \<Rightarrow> 'a list option" where
  "collect [] = Some []"
| "collect (None # xs) = None"
| "collect (Some x # xs) = (case collect xs of None \<Rightarrow> None | Some ys \<Rightarrow> Some (x # ys))"

definition read_headers :: "nat \<Rightarrow> trace_header option list \<Rightarrow> (int \<times> int \<times> int \<times> int) list option" where
  "read_headers n_traces hs = collect (map (\<lambda>(i, h). locate n_traces i h) (zip [0..<n_traces] hs))"

section \<open>Grid Indexer (lines 155-171)\<close>

text \<open>\<^verbatim>\<open>sorted(list(set(xs)))\<close>.\<close>

definition unique_sorted :: "int list \<Rightarrow> int list" where
  "unique_sorted xs = sort (remdups xs)"

text \<open>\<^verbatim>\<open>{v: idx for idx, v in enumerate(us)}\<close>: a later entry replaces an earlier one.\<close>

definition index_map :: "int list \<Rightarrow> (int \<rightharpoonup> nat)" where
  "index_map us = map_of (rev (zip us [0..<length us]))"

section \<open>Cube Assembler (lines 167-188)\<close>

text \<open>
  The volume is the nested list of its cells, \<open>data ! i ! j ! k\<close>; the shape is read off
  the first plane and row (the code allocates the volume only with at least one inline
  and one crossline).
\<close>

type_synonym cube = "fl list list list"

definition np_zeros :: "nat \<Rightarrow> nat \<Rightarrow> nat \<Rightarrow> cube" where
  "np_zeros a b c = replicate a (replicate b (replicate c (Fin 0)))"

definition shape0 :: "cube \<Rightarrow> nat" where
  "shape0 d = length d"

definition shape1 :: "cube \<Rightarrow> nat" where
  "shape1 d = (case d of [] \<Rightarrow> 0 | p # _ \<Rightarrow> length p)"

definition shape2 :: "cube \<Rightarrow> nat" where
  "shape2 d = (case d of [] \<Rightarrow> 0 | p # _ \<Rightarrow> (case p of [] \<Rightarrow> 0 | r # _ \<Rightarrow> length r))"

text \<open>
  \<^verbatim>\<open>self.data[i, j, :] = v\<close>: \<open>None\<close> is the exception of an index out of range or of
  a vector that has neither the length of the sample axis nor length one (a vector of
  length one is broadcast).
\<close>

definition assign_trace :: "cube \<Rightarrow> nat \<Rightarrow> nat \<Rightarrow> fl list \<Rightarrow> cube option" where
  "assign_trace d i j v =
     (if i < shape0 d \<and> j < shape1 d
      then (let n = shape2 d
            in if length v = n then Some (d[i := (d ! i)[j := v]])
               else if length v = 1 then Some (d[i := (d ! i)[j := replicate n (hd v)]])
               else None)
      else None)"

text \<open>
  The body of the assembly loop for one trace, given as its resolved inline, crossline
  and the result of reading its samples; every exception continues with the next trace.
\<close>

definition place_trace :: "(int \<rightharpoonup> nat) \<Rightarrow> (int \<rightharpoonup> nat) \<Rightarrow> cube \<Rightarrow> int \<times> int \<times> fl list option \<Rightarrow> cube" where
  "place_trace inline_map xline_map d t =
     (case t of (inline, xline, tr) \<Rightarrow>
       (case inline_map inline of None \<Rightarrow> d
        | Some inline_idx \<Rightarrow>
       (case xline_map xline of None \<Rightarrow> d
        | Some xline_idx \<Rightarrow>
       (case tr of None \<Rightarrow> d
        | Some trace_data \<Rightarrow>
       (case assign_trace d inline_idx xline_idx (map nan_to_num trace_data) of
          None \<Rightarrow> d
        | Some d' \<Rightarrow> d')))))"

definition build_cube :: "(int \<rightharpoonup> nat) \<Rightarrow> (int \<rightharpoonup> nat) \<Rightarrow> cube \<Rightarrow> (int \<times> int \<times> fl list option) list \<Rightarrow> cube" where
  "build_cube inline_map xline_map d ts = foldl (place_trace inline_map xline_map) d ts"

text \<open>The traces as the assembly loop of line 173 visits them.\<close>

definition loop_traces :: "nat \<Rightarrow> int list \<Rightarrow> int list \<Rightarrow> segy_trace list \<Rightarrow> (int \<times> int \<times> fl list option) list" where
  "loop_traces n_traces inlines xlines ts =
     take (min n_traces (length inlines)) (zip inlines (zip xlines (map trace ts)))"

text \<open>Lines 168-188: the zero volume, the two lookup tables and the loop.\<close>

definition assemble_cube :: "nat \<Rightarrow> nat \<Rightarrow> int list \<Rightarrow> int list \<Rightarrow> int list \<Rightarrow> int list \<Rightarrow> segy_trace list \<Rightarrow> cube" where
  "assemble_cube n_traces n_samples inlines xlines unique_inlines unique_xlines ts =
     build_cube (index_map unique_inlines) (index_map unique_xlines)
       (np_zeros (length unique_inlines) (length unique_xlines) n_samples)
       (loop_traces n_traces inlines xlines ts)"

section \<open>Geometry Estimator (lines 243-313)\<close>

record survey_geometry =
  inline_azimuth :: real
  xline_azimuth :: real
  has_coordinates :: bool

definition default_geometry :: survey_geometry where
  "default_geometry = \<lparr>inline_azimuth = 0, xline_azimuth = 90, has_coordinates = False\<rparr>"

text \<open>
  The dictionary comprehension of line 247, as the list of its insertions in order; a
  later insertion replaces an earlier one with the same key.
\<close>

definition coord_entries :: "int list \<Rightarrow> int list \<Rightarrow> int list \<Rightarrow> int list \<Rightarrow> ((int \<times> int) \<times> (int \<times> int)) list" where
  "coord_entries inlines xlines x_coords y_coords =
     map (\<lambda>(il, xl, x, y). ((il, xl), (x, y)))
       (filter (\<lambda>(il, xl, x, y). x \<noteq> 0 \<and> y \<noteq> 0)
          (zip inlines (zip xlines (zip x_coords y_coords))))"

definition coord_get :: "((int \<times> int) \<times> (int \<times> int)) list \<Rightarrow> int \<times> int \<Rightarrow> (int \<times> int) option" where
  "coord_get entries k = map_of (rev entries) k"

definition coord_len :: "((int \<times> int) \<times> (int \<times> int)) list \<Rightarrow> nat" where
  "coord_len entries = length (remdups (map fst entries))"

definition list_min :: "int list \<Rightarrow> int" where
  "list_min xs = foldl min (hd xs) (tl xs)"

definition list_max :: "int list \<Rightarrow> int" where
  "list_max xs = foldl max (hd xs) (tl xs)"

text \<open>
  The fallback loop of lines 265-269: the two variables hold the lookups of the last
  crossline visited; the loop stops at the first crossline where both are found.
\<close>

fun scan_xlines :: "((int \<times> int) \<times> (int \<times> int)) list \<Rightarrow> int \<Rightarrow> int \<Rightarrow>
    (int \<times> int) option \<times> (int \<times> int) option \<Rightarrow> int list \<Rightarrow> (int \<times> int) option \<times> (int \<times> int) option" where
  "scan_xlines cm min_il max_il acc [] = acc"
| "scan_xlines cm min_il max_il acc (xl_val # rest) =
     (let p1 = coord_get cm (min_il, xl_val); p2 = coord_get cm (max_il, xl_val)
      in if p1 \<noteq> None \<and> p2 \<noteq> None then (p1, p2)
         else scan_xlines cm min_il max_il (p1, p2) rest)"

text \<open>The fallback loop of lines 280-284.\<close>

fun scan_inlines :: "((int \<times> int) \<times> (int \<times> int)) list \<Rightarrow> int \<Rightarrow> int \<Rightarrow>
    (int \<times> int) option \<times> (int \<times> int) option \<Rightarrow> int list \<Rightarrow> (int \<times> int) option \<times> (int \<times> int) option" where
  "scan_inlines cm min_xl max_xl acc [] = acc"
| "scan_inlines cm min_xl max_xl acc (il_val # rest) =
     (let p1 = coord_get cm (il_val, min_xl); p2 = coord_get cm (il_val, max_xl)
      in if p1 \<noteq> None \<and> p2 \<noteq> None then (p1, p2)
         else scan_inlines cm min_xl max_xl (p1, p2) rest)"

definition inline_points :: "((int \<times> int) \<times> (int \<times> int)) list \<Rightarrow> int list \<Rightarrow> int list \<Rightarrow>
    (int \<times> int) option \<times> (int \<times> int) option" where
  "inline_points cm unique_inlines unique_xlines =
     (let min_il = list_min unique_inlines; max_il = list_max unique_inlines;
          min_xl = list_min unique_xlines;
          p1 = coord_get cm (min_il, min_xl); p2 = coord_get cm (max_il, min_xl)
      in if p1 = None \<or> p2 = None
         then scan_xlines cm min_il max_il (p1, p2) unique_xlines
         else (p1, p2))"

definition xline_points :: "((int \<times> int) \<times> (int \<times> int)) list \<Rightarrow> int list \<Rightarrow> int list \<Rightarrow>
    (int \<times> int) option \<times> (int \<times> int) option" where
  "xline_points cm unique_inlines unique_xlines =
     (let min_il = list_min unique_inlines;
          min_xl = list_min unique_xlines; max_xl = list_max unique_xlines;
          p1 = coord_get cm (min_il, min_xl); p2 = coord_get cm (min_il, max_xl)
      in if p1 = None \<or> p2 = None
         then scan_inlines cm min_xl max_xl (p1, p2) unique_inlines
         else (p1, p2))"

text \<open>\<^verbatim>\<open>np.arctan2(y, x)\<close> on integers converted to floats.\<close>

definition arctan2 :: "real \<Rightarrow> real \<Rightarrow> real" where
  "arctan2 y x =
     (if 0 < x then arctan (y / x)
      else if x < 0 \<and> 0 \<le> y then arctan (y / x) + pi
      else if x < 0 \<and> y < 0 then arctan (y / x) - pi
      else if 0 < y then pi / 2
      else if y < 0 then - (pi / 2)
      else 0)"

text \<open>\<^verbatim>\<open>(np.degrees(np.arctan2(dx, dy)) + 360) % 360\<close>.\<close>

definition azimuth :: "int \<times> int \<Rightarrow> int \<times> int \<Rightarrow> real" where
  "azimuth p1 p2 =
     (let dx = real_of_int (fst p2 - fst p1); dy = real_of_int (snd p2 - snd p1);
          a = arctan2 dx dy * 180 / pi + 360
      in a - 360 * of_int \<lfloor>a / 360\<rfloor>)"

text \<open>
  \<^verbatim>\<open>calculate_survey_geometry\<close>. With at least four entries in the coordinate map but an
  empty axis, \<^verbatim>\<open>min\<close> raises and the handler of line 311 returns the default.
\<close>

definition calculate_survey_geometry :: "int list \<Rightarrow> int list \<Rightarrow> int list \<Rightarrow> int list \<Rightarrow>
    int list \<Rightarrow> int list \<Rightarrow> survey_geometry" where
  "calculate_survey_geometry inlines xlines x_coords y_coords unique_inlines unique_xlines =
     (let coord_map = coord_entries inlines xlines x_coords y_coords
      in if coord_len coord_map < 4 then default_geometry
         else if unique_inlines = [] \<or> unique_xlines = [] then default_geometry
         else
           (let il_pts = inline_points coord_map unique_inlines unique_xlines;
                xl_pts = xline_points coord_map unique_inlines unique_xlines
            in \<lparr>inline_azimuth =
                   (case il_pts of (Some p1, Some p2) \<Rightarrow> azimuth p1 p2 | _ \<Rightarrow> 0),
                 xline_azimuth =
                   (case xl_pts of (Some p1, Some p2) \<Rightarrow> azimuth p1 p2 | _ \<Rightarrow> 90),
                 has_coordinates = True\<rparr>))"

section \<open>Statistics Engine (lines 195-220)\<close>

text \<open>Arithmetic of floats: exact on finite values, the IEEE rules on the special ones.\<close>

fun fl_neg :: "fl \<Rightarrow> fl" where
  "fl_neg (Fin x) = Fin (- x)"
| "fl_neg PInf = NInf"
| "fl_neg NInf = PInf"
| "fl_neg NaN = NaN"

fun fl_add :: "fl \<Rightarrow> fl \<Rightarrow> fl" where
  "fl_add (Fin x) (Fin y) = Fin (x + y)"
| "fl_add NaN b = NaN"
| "fl_add a NaN = NaN"
| "fl_add PInf NInf = NaN"
| "fl_add NInf PInf = NaN"
| "fl_add PInf b = PInf"
| "fl_add a PInf = PInf"
| "fl_add NInf b = NInf"
| "fl_add a NInf = NInf"

definition fl_sub :: "fl \<Rightarrow> fl \<Rightarrow> fl" where
  "fl_sub a b = fl_add a (fl_neg b)"

fun fl_sgn :: "fl \<Rightarrow> int" where
  "fl_sgn (Fin x) = (if x = 0 then 0 else if 0 < x then 1 else -1)"
| "fl_sgn PInf = 1"
| "fl_sgn NInf = -1"
| "fl_sgn NaN = 0"

fun fl_mul :: "fl \<Rightarrow> fl \<Rightarrow> fl" where
  "fl_mul (Fin x) (Fin y) = Fin (x * y)"
| "fl_mul NaN b = NaN"
| "fl_mul a NaN = NaN"
| "fl_mul a b =
     (let s = fl_sgn a * fl_sgn b
      in if s = 0 then NaN else if 0 < s then PInf else NInf)"

text \<open>Division of a sum by the number of elements.\<close>

fun fl_div_count :: "fl \<Rightarrow> nat \<Rightarrow> fl" where
  "fl_div_count (Fin x) n =
     (if n = 0 then (if x = 0 then NaN else if 0 < x then PInf else NInf)
      else Fin (x / real n))"
| "fl_div_count PInf n = PInf"
| "fl_div_count NInf n = NInf"
| "fl_div_count NaN n = NaN"

fun fl_sqrt :: "fl \<Rightarrow> fl" where
  "fl_sqrt (Fin x) = (if x < 0 then NaN else Fin (sqrt x))"
| "fl_sqrt PInf = PInf"
| "fl_sqrt NInf = NaN"
| "fl_sqrt NaN = NaN"

text \<open>The comparison \<open><\<close> of floats: false whenever an operand is NaN.\<close>

fun fl_less :: "fl \<Rightarrow> fl \<Rightarrow> bool" where
  "fl_less (Fin x) (Fin y) = (x < y)"
| "fl_less NaN b = False"
| "fl_less a NaN = False"
| "fl_less a NInf = False"
| "fl_less PInf b = False"
| "fl_less NInf b = True"
| "fl_less a PInf = True"

definition fl_le :: "fl \<Rightarrow> fl \<Rightarrow> bool" where
  "fl_le a b = (a \<noteq> NaN \<and> b \<noteq> NaN \<and> \<not> fl_less b a)"

text \<open>\<^verbatim>\<open>np.minimum\<close> and \<^verbatim>\<open>np.maximum\<close> propagate NaN.\<close>

definition fl_minimum :: "fl \<Rightarrow> fl \<Rightarrow> fl" where
  "fl_minimum a b = (if a = NaN \<or> b = NaN then NaN else if fl_less b a then b else a)"

definition fl_maximum :: "fl \<Rightarrow> fl \<Rightarrow> fl" where
  "fl_maximum a b = (if a = NaN \<or> b = NaN then NaN else if fl_less a b then b else a)"

text \<open>\<^verbatim>\<open>np.min\<close> and \<^verbatim>\<open>np.max\<close> of the flattened array: \<open>None\<close> is the \<^verbatim>\<open>ValueError\<close>
  of an empty array.\<close>

definition np_min :: "fl list \<Rightarrow> fl option" where
  "np_min xs = (case xs of [] \<Rightarrow> None | x # r \<Rightarrow> Some (foldl fl_minimum x r))"

definition np_max :: "fl list \<Rightarrow> fl option" where
  "np_max xs = (case xs of [] \<Rightarrow> None | x # r \<Rightarrow> Some (foldl fl_maximum x r))"

definition np_sum :: "fl list \<Rightarrow> fl" where
  "np_sum xs = foldl fl_add (Fin 0) xs"

definition np_mean :: "fl list \<Rightarrow> fl" where
  "np_mean xs = fl_div_count (np_sum xs) (length xs)"

text \<open>\<^verbatim>\<open>np.std\<close>: the population standard deviation.\<close>

definition np_std :: "fl list \<Rightarrow> fl" where
  "np_std xs =
     (let m = np_mean xs
      in fl_sqrt (np_mean (map (\<lambda>x. let d = fl_sub x m in fl_mul d d) xs)))"

fun fl_insort :: "fl \<Rightarrow> fl list \<Rightarrow> fl list" where
  "fl_insort x [] = [x]"
| "fl_insort x (y # ys) = (if fl_less y x then y # fl_insort x ys else x # y # ys)"

definition np_sort :: "fl list \<Rightarrow> fl list" where
  "np_sort xs = foldr fl_insort xs []"

text \<open>The linear interpolation of \<^verbatim>\<open>np.percentile\<close> between two neighbours.\<close>

definition lerp :: "fl \<Rightarrow> fl \<Rightarrow> real \<Rightarrow> fl" where
  "lerp a b t =
     (let diff_b_a = fl_sub b a
      in if 1 / 2 \<le> t then fl_sub b (fl_mul diff_b_a (Fin (1 - t)))
         else fl_add a (fl_mul diff_b_a (Fin t)))"

text \<open>
  \<^verbatim>\<open>np.percentile(a, q)\<close> with the default linear method on the flattened array: the
  virtual index is \<open>q / 100 * (n - 1)\<close> in the sorted values; a NaN among the values, or
  an empty array, gives NaN.
\<close>

definition np_percentile :: "fl list \<Rightarrow> real \<Rightarrow> fl" where
  "np_percentile xs q =
     (let n = length xs
      in if n = 0 \<or> NaN \<in> set xs then NaN
         else
           (let s = np_sort xs;
                virtual_index = q / 100 * real (n - 1);
                previous_index = nat \<lfloor>virtual_index\<rfloor>;
                next_index = min (previous_index + 1) (n - 1);
                gamma = virtual_index - real previous_index
            in lerp (s ! min previous_index (n - 1)) (s ! next_index) gamma))"

record amp_range =
  actual_min :: fl
  actual_max :: fl
  display_min :: fl
  display_max :: fl
  mean :: fl
  std :: fl
  p1 :: fl
  p99 :: fl
  p5 :: fl
  p95 :: fl

definition flatten :: "cube \<Rightarrow> fl list" where
  "flatten d = concat (concat d)"

definition clean_cube :: "cube \<Rightarrow> cube" where
  "clean_cube d = map (map (map nan_to_num)) d"

text \<open>Lines 197-220; \<open>None\<close> is the exception of \<^verbatim>\<open>np.min\<close> on an empty volume.\<close>

definition amplitude_statistics :: "cube \<Rightarrow> amp_range option" where
  "amplitude_statistics d =
     (let clean_data = flatten (clean_cube d)
      in case np_min clean_data of None \<Rightarrow> None
         | Some data_min \<Rightarrow>
        (case np_max clean_data of None \<Rightarrow> None
         | Some data_max \<Rightarrow>
           Some \<lparr>actual_min = data_min, actual_max = data_max,
                 display_min = np_percentile clean_data 5,
                 display_max = np_percentile clean_data 95,
                 mean = np_mean clean_data, std = np_std clean_data,
                 p1 = np_percentile clean_data 1, p99 = np_percentile clean_data 99,
                 p5 = np_percentile clean_data 5, p95 = np_percentile clean_data 95\<rparr>))"

section \<open>The processor and \<^verbatim>\<open>load_segy_file\<close> (lines 81-241)\<close>

record processor =
  data :: "cube option"
  inline_range :: "int list option"
  xline_range :: "int list option"
  sample_range :: "real list option"
  amplitude_range :: "amp_range option"
  current_inline_idx :: nat
  current_xline_idx :: nat
  current_sample_idx :: nat
  inline_coords :: "int list option"
  xline_coords :: "int list option"
  sample_coords :: "real list option"
  session_id :: "string option"
  cube_id :: "string option"
  geometry :: "survey_geometry option"

text \<open>\<^verbatim>\<open>__init__\<close>; the attribute \<^verbatim>\<open>geometry\<close> does not exist until a load sets it.\<close>

definition init :: processor where
  "init = \<lparr>data = None, inline_range = None, xline_range = None, sample_range = None,
           amplitude_range = None, current_inline_idx = 0, current_xline_idx = 0,
           current_sample_idx = 0, inline_coords = None, xline_coords = None,
           sample_coords = None, session_id = None, cube_id = None, geometry = None\<rparr>"

text \<open>
  \<^verbatim>\<open>segyio.open(filepath, ignore_geometry=True)\<close> on what the path holds: \<open>None\<close> is
  the exception it raises, for a path that holds no readable SEG-Y file (the argument
  \<open>None\<close>) and for a file without traces.
\<close>

definition segyio_open :: "segy_file option \<Rightarrow> segy_file option" where
  "segyio_open file =
     (case file of None \<Rightarrow> None
      | Some f \<Rightarrow> if traces f = [] then None else Some f)"

text \<open>
  \<^verbatim>\<open>np.zeros((a, b, c))\<close> at line 168 raises when the volume cannot be allocated; the
  capacity is the number of cells the process can still allocate. The temporaries of
  the statistics (line 197 on) are taken to be allocated once the volume is.
\<close>

definition allocation_fails :: "nat \<Rightarrow> nat \<Rightarrow> nat \<Rightarrow> nat \<Rightarrow> bool" where
  "allocation_fails capacity a b c = (capacity < a * b * c)"

text \<open>
  \<^verbatim>\<open>load_segy_file\<close>, given the capacity and what the path holds. The result is the
  returned flag and the processor as the call leaves it; each exception that reaches the
  outer handler returns \<open>False\<close> with the assignments made so far.
\<close>

definition load_segy_file :: "nat \<Rightarrow> processor \<Rightarrow> segy_file option \<Rightarrow> bool \<times> processor" where
  "load_segy_file capacity self file =
     (case segyio_open file of None \<Rightarrow> (False, self)
      | Some f \<Rightarrow>
        (let n_traces = length (traces f);
             n_samples = length (samples f);
             self1 = self\<lparr>sample_coords := Some (samples f)\<rparr>
         in case read_headers n_traces (map header (traces f)) of
              None \<Rightarrow> (False, self1)
            | Some placements \<Rightarrow>
              (let inlines = map (\<lambda>(il, xl, x, y). il) placements;
                   xlines = map (\<lambda>(il, xl, x, y). xl) placements;
                   x_coords = map (\<lambda>(il, xl, x, y). x) placements;
                   y_coords = map (\<lambda>(il, xl, x, y). y) placements;
                   unique_inlines = unique_sorted inlines;
                   unique_xlines = unique_sorted xlines
               in if unique_inlines = [] \<or> unique_xlines = [] then (False, self1)
                  else
                    (let self2 = self1\<lparr>inline_coords := Some unique_inlines,
                                       xline_coords := Some unique_xlines\<rparr>;
                         geometry_info = calculate_survey_geometry inlines xlines x_coords y_coords
                                           unique_inlines unique_xlines
                     in if allocation_fails capacity (length unique_inlines)
                             (length unique_xlines) n_samples
                        then (False, self2)
                        else
                          (let cube = assemble_cube n_traces n_samples inlines xlines
                                        unique_inlines unique_xlines (traces f);
                               self3 = self2\<lparr>data := Some cube,
                                             inline_range := Some unique_inlines,
                                             xline_range := Some unique_xlines,
                                             sample_range := sample_coords self2,
                                             geometry := Some geometry_info\<rparr>
                           in case amplitude_statistics cube of
                                None \<Rightarrow> (False, self3)
                              | Some stats \<Rightarrow>
                                  (True, self3\<lparr>amplitude_range := Some stats,
                                               current_inline_idx := length unique_inlines div 2,
                                               current_xline_idx := length unique_xlines div 2,
                                               current_sample_idx := n_samples div 2\<rparr>))))))"

section \<open>Slice Extractor (lines 413-468) and the route \<^verbatim>\<open>get_slice\<close> (lines 621-643)\<close>

datatype coord_axis = IntAxis "int list" | FloatAxis "real list"

record slice_stats =
  stat_min :: fl
  stat_max :: fl
  stat_mean :: fl
  stat_std :: fl

record slice_result =
  slice_values :: "fl list list"
  coordinates :: "coord_axis \<times> coord_axis"
  amplitude_stats :: slice_stats

text \<open>An integer index into an axis of length \<open>n\<close>: a negative index counts from the end,
  \<open>None\<close> is the \<^verbatim>\<open>IndexError\<close>.\<close>

definition np_index :: "nat \<Rightarrow> int \<Rightarrow> nat option" where
  "np_index n i =
     (if 0 \<le> i \<and> i < int n then Some (nat i)
      else if - int n \<le> i \<and> i < 0 then Some (nat (i + int n))
      else None)"

text \<open>The transpose of a matrix with \<open>c\<close> columns.\<close>

definition transpose_2d :: "nat \<Rightarrow> fl list list \<Rightarrow> fl list list" where
  "transpose_2d c m = map (\<lambda>j. map (\<lambda>row. row ! j) m) [0..<c]"

text \<open>Lines 443-463 on the selected plane (already transposed where the code does).\<close>

definition slice_reply :: "fl list list \<Rightarrow> coord_axis \<times> coord_axis \<Rightarrow> slice_result option" where
  "slice_reply m coords =
     (let flat = concat m
      in case np_min flat of None \<Rightarrow> None
         | Some lo \<Rightarrow>
        (case np_max flat of None \<Rightarrow> None
         | Some hi \<Rightarrow>
           Some \<lparr>slice_values = m, coordinates = coords,
                 amplitude_stats = \<lparr>stat_min = lo, stat_max = hi,
                                    stat_mean = np_mean flat, stat_std = np_std flat\<rparr>\<rparr>))"

text \<open>
  \<^verbatim>\<open>get_slice_data\<close>; \<open>None\<close> is the returned \<^verbatim>\<open>None\<close>, also for every exception
  inside the \<^verbatim>\<open>try\<close>.
\<close>

definition get_slice_data :: "processor \<Rightarrow> string \<Rightarrow> int \<Rightarrow> slice_result option" where
  "get_slice_data self slice_type index =
     (case data self of None \<Rightarrow> None
      | Some d \<Rightarrow>
        if slice_type = ''inline'' then
          (case np_index (shape0 d) index of None \<Rightarrow> None
           | Some i \<Rightarrow>
          (case (xline_coords self, sample_coords self) of
             (Some xs, Some ss) \<Rightarrow>
               slice_reply (transpose_2d (shape2 d) (map (map nan_to_num) (d ! i)))
                 (IntAxis xs, FloatAxis ss)
           | _ \<Rightarrow> None))
        else if slice_type = ''xline'' then
          (case np_index (shape1 d) index of None \<Rightarrow> None
           | Some j \<Rightarrow>
          (case (inline_coords self, sample_coords self) of
             (Some is, Some ss) \<Rightarrow>
               slice_reply (transpose_2d (shape2 d)
                              (map (map nan_to_num) (map (\<lambda>plane. plane ! j) d)))
                 (IntAxis is, FloatAxis ss)
           | _ \<Rightarrow> None))
        else if slice_type = ''sample'' then
          (case np_index (shape2 d) index of None \<Rightarrow> None
           | Some k \<Rightarrow>
          (case (inline_coords self, xline_coords self) of
             (Some is, Some xs) \<Rightarrow>
               slice_reply (map (map nan_to_num) (map (\<lambda>plane. map (\<lambda>row. row ! k) plane) d))
                 (IntAxis is, IntAxis xs)
           | _ \<Rightarrow> None))
        else None)"

text \<open>The error replies, with the index and the maximum where the route reports them;
  the last is the reply of the 404 handler of lines 725-727.\<close>

datatype api_error =
    InvalidSliceType
  | NoCubeLoaded
  | IndexOutOfBounds int int
  | FailedToGetSlice
  | EndpointNotFound

fun status_code :: "api_error \<Rightarrow> nat" where
  "status_code InvalidSliceType = 400"
| "status_code NoCubeLoaded = 400"
| "status_code (IndexOutOfBounds i m) = 400"
| "status_code FailedToGetSlice = 500"
| "status_code EndpointNotFound = 404"

definition max_index :: "cube \<Rightarrow> string \<Rightarrow> int" where
  "max_index d slice_type =
     (if slice_type = ''inline'' then int (shape0 d) - 1
      else if slice_type = ''xline'' then int (shape1 d) - 1
      else int (shape2 d) - 1)"

text \<open>The view function \<^verbatim>\<open>get_slice\<close> of lines 622-643.\<close>

definition get_slice :: "processor \<Rightarrow> string \<Rightarrow> int \<Rightarrow> api_error + slice_result" where
  "get_slice self slice_type index =
     (if slice_type \<notin> set [''inline'', ''xline'', ''sample''] then Inl InvalidSliceType
      else case data self of None \<Rightarrow> Inl NoCubeLoaded
           | Some d \<Rightarrow>
             if index < 0 \<or> index > max_index d slice_type
             then Inl (IndexOutOfBounds index (max_index d slice_type))
             else (case get_slice_data self slice_type index of
                     None \<Rightarrow> Inl FailedToGetSlice
                   | Some slice_data \<Rightarrow> Inr slice_data))"

text \<open>
  A request \<^verbatim>\<open>GET /api/slice/<slice_type>/<index>\<close>: the converter \<^verbatim>\<open><int:index>\<close> of
  line 621 matches unsigned digits only, so a request with a negative index is not
  routed to \<^verbatim>\<open>get_slice\<close> and gets the reply of the 404 handler.
\<close>

definition slice_endpoint :: "processor \<Rightarrow> string \<Rightarrow> int \<Rightarrow> api_error + slice_result" where
  "slice_endpoint self slice_type index =
     (if index < 0 then Inl EndpointNotFound else get_slice self slice_type index)"


section \<open>Predicates used in the statements\<close>

text \<open>The test \<^verbatim>\<open>p1 and p2\<close> of lines 288 and 294 on the two looked-up points.\<close>

definition pair_found :: "(int \<times> int) option \<times> (int \<times> int) option \<Rightarrow> bool" where
  "pair_found pts = (fst pts \<noteq> None \<and> snd pts \<noteq> None)"

text \<open>The traces given to the Geometry Estimator, one tuple per trace.\<close>

definition geometry_of :: "(int \<times> int \<times> int \<times> int) list \<Rightarrow> int list \<Rightarrow> int list \<Rightarrow> survey_geometry" where
  "geometry_of ts unique_inlines unique_xlines =
     calculate_survey_geometry (map (\<lambda>(il, xl, x, y). il) ts) (map (\<lambda>(il, xl, x, y). xl) ts)
       (map (\<lambda>(il, xl, x, y). x) ts) (map (\<lambda>(il, xl, x, y). y) ts) unique_inlines unique_xlines"

definition carries_coordinates :: "int \<times> int \<times> int \<times> int \<Rightarrow> bool" where
  "carries_coordinates t = (case t of (il, xl, x, y) \<Rightarrow> x \<noteq> 0 \<and> y \<noteq> 0)"

text \<open>A volume of shape \<open>(a, b, c)\<close>.\<close>

definition has_shape :: "nat \<Rightarrow> nat \<Rightarrow> nat \<Rightarrow> cube \<Rightarrow> bool" where
  "has_shape a b c d =
     (length d = a \<and> (\<forall>p \<in> set d. length p = b \<and> (\<forall>r \<in> set p. length r = c)))"

text \<open>A matrix of shape \<open>(r, c)\<close>.\<close>

definition has_shape_2d :: "nat \<Rightarrow> nat \<Rightarrow> fl list list \<Rightarrow> bool" where
  "has_shape_2d r c m = (length m = r \<and> (\<forall>row \<in> set m. length row = c))"

text \<open>The length of the axis a slice type selects, as \<^verbatim>\<open>get_slice\<close> reads it off the shape.\<close>

definition axis_length :: "cube \<Rightarrow> string \<Rightarrow> nat" where
  "axis_length d slice_type =
     (if slice_type = ''inline'' then shape0 d
      else if slice_type = ''xline'' then shape1 d
      else shape2 d)"

definition is_range_error :: "api_error + slice_result \<Rightarrow> bool" where
  "is_range_error r = (case r of Inl (IndexOutOfBounds i m) \<Rightarrow> True | _ \<Rightarrow> False)"

definition cube_finite :: "cube \<Rightarrow> bool" where
  "cube_finite d = (\<forall>p \<in> set d. \<forall>r \<in> set p. \<forall>v \<in> set r. is_finite v)"

text \<open>Whether a trace of the assembly loop resolves to the cell \<open>(i, j)\<close> of the volume.\<close>

definition resolves_to :: "(int \<rightharpoonup> nat) \<Rightarrow> (int \<rightharpoonup> nat) \<Rightarrow> nat \<Rightarrow> nat \<Rightarrow> int \<times> int \<times> fl list option \<Rightarrow> bool" where
  "resolves_to inline_map xline_map i j t =
     (inline_map (fst t) = Some i \<and> xline_map (fst (snd t)) = Some j)"

text \<open>
  The values \<^verbatim>\<open>load_segy_file\<close> computes from an opened file, named for the statements:
  the placements of the header loop, the two axes, the assembled volume and the
  estimated geometry.
\<close>

definition resolved :: "segy_file \<Rightarrow> (int \<times> int \<times> int \<times> int) list" where
  "resolved f =
     (case read_headers (length (traces f)) (map header (traces f)) of
        Some ps \<Rightarrow> ps | None \<Rightarrow> [])"

definition inline_axis :: "segy_file \<Rightarrow> int list" where
  "inline_axis f = unique_sorted (map (\<lambda>(il, xl, x, y). il) (resolved f))"

definition xline_axis :: "segy_file \<Rightarrow> int list" where
  "xline_axis f = unique_sorted (map (\<lambda>(il, xl, x, y). xl) (resolved f))"

definition loaded_cube :: "segy_file \<Rightarrow> cube" where
  "loaded_cube f =
     assemble_cube (length (traces f)) (length (samples f))
       (map (\<lambda>(il, xl, x, y). il) (resolved f)) (map (\<lambda>(il, xl, x, y). xl) (resolved f))
       (inline_axis f) (xline_axis f) (traces f)"

definition loaded_geometry :: "segy_file \<Rightarrow> survey_geometry" where
  "loaded_geometry f = geometry_of (resolved f) (inline_axis f) (xline_axis f)"

text \<open>The number of cells of the volume allocated for a file.\<close>

definition volume_cells :: "segy_file \<Rightarrow> nat" where
  "volume_cells f = length (inline_axis f) * length (xline_axis f) * length (samples f)"

text \<open>
  The percentile of a list of reals by linear interpolation between the two neighbours
  of the virtual index \<open>q / 100 * (n - 1)\<close> in the sorted list: what
  \<^verbatim>\<open>np.percentile\<close> computes on finite values.
\<close>

definition percentile_real :: "real list \<Rightarrow> real \<Rightarrow> real" where
  "percentile_real rs q =
     (let n = length rs; s = sort rs;
          virtual_index = q / 100 * real (n - 1);
          previous_index = nat \<lfloor>virtual_index\<rfloor>;
          next_index = min (previous_index + 1) (n - 1);
          gamma = virtual_index - real previous_index;
          a = s ! min previous_index (n - 1); b = s ! next_index
      in a + (b - a) * gamma)"

definition all_finite :: "fl list \<Rightarrow> bool" where
  "all_finite xs = (\<forall>x \<in> set xs. is_finite x)"

definition stats_finite :: "amp_range \<Rightarrow> bool" where
  "stats_finite st =
     (is_finite (actual_min st) \<and> is_finite (actual_max st) \<and> is_finite (display_min st) \<and>
      is_finite (display_max st) \<and> is_finite (mean st) \<and> is_finite (std st) \<and>
      is_finite (p1 st) \<and> is_finite (p99 st) \<and> is_finite (p5 st) \<and> is_finite (p95 st))"

definition slice_finite :: "slice_result \<Rightarrow> bool" where
  "slice_finite r =
     ((\<forall>row \<in> set (slice_values r). all_finite row) \<and>
      is_finite (stat_min (amplitude_stats r)) \<and> is_finite (stat_max (amplitude_stats r)) \<and>
      is_finite (stat_mean (amplitude_stats r)) \<and> is_finite (stat_std (amplitude_stats r)))"

section \<open>Example files\<close>

text \<open>
  A survey of one trace with two samples; a survey of two traces at the same inline and
  crossline; and a file of one trace whose sample axis is empty.
\<close>

definition survey_a :: segy_file where
  "survey_a =
     \<lparr>samples = [0, 4],
      traces = [\<lparr>header = Some \<lparr>INLINE_3D = Some 1, CROSSLINE_3D = Some 1, CDP_X = Some 0,
                                 CDP_Y = Some 0, SourceX = Some 0, SourceY = Some 0\<rparr>,
                 trace = Some [Fin 1, NaN]\<rparr>]\<rparr>"

definition survey_b :: segy_file where
  "survey_b =
     \<lparr>samples = [0, 4],
      traces = [\<lparr>header = Some \<lparr>INLINE_3D = Some 7, CROSSLINE_3D = Some 3, CDP_X = Some 0,
                                 CDP_Y = Some 0, SourceX = Some 0, SourceY = Some 0\<rparr>,
                 trace = Some [Fin 1, NaN]\<rparr>,
                \<lparr>header = Some \<lparr>INLINE_3D = Some 7, CROSSLINE_3D = Some 3, CDP_X = Some 0,
                                 CDP_Y = Some 0, SourceX = Some 0, SourceY = Some 0\<rparr>,
                 trace = Some [PInf, Fin 2]\<rparr>]\<rparr>"

definition survey_nosamples :: segy_file where
  "survey_nosamples =
     \<lparr>samples = [],
      traces = [\<lparr>header = Some \<lparr>INLINE_3D = Some 5, CROSSLINE_3D = Some 6, CDP_X = Some 0,
                                 CDP_Y = Some 0, SourceX = Some 0, SourceY = Some 0\<rparr>,
                 trace = Some []\<rparr>]\<rparr>"

section \<open>Trace Locator: properties\<close>

lemma grid_size_pos: "0 < n \<Longrightarrow> 0 < grid_size n"
proof -
  assume "0 < n"
  then have "1 \<le> sqrt (real n)" by simp
  then have "1 \<le> \<lfloor>sqrt (real n)\<rfloor>" by linarith
  then show ?thesis by (simp add: grid_size_def)
qed

lemma grid_size_square: "grid_size (k * k) = k"
proof -
  have "sqrt (real (k * k)) = real k" by simp
  then show ?thesis by (simp add: grid_size_def)
qed

lemma grid_size_100: "grid_size 100 = 10"
  using grid_size_square [of 10] by simp

lemma fallback_Some:
  "i < n \<Longrightarrow> fallback_placement n i =
     Some (int i div int (grid_size n) + 1, int i mod int (grid_size n) + 1, 0, 0)"
  using grid_size_pos [of n] by (simp add: fallback_placement_def Let_def)

lemma locate_ids_nonzero:
  "ids_nonzero hd_opt \<Longrightarrow>
   \<exists>h il xl. hd_opt = Some h \<and> INLINE_3D h = Some il \<and> CROSSLINE_3D h = Some xl \<and>
     il \<noteq> 0 \<and> xl \<noteq> 0 \<and>
     locate n i hd_opt = Some (il, xl, fst (resolve_coords h), snd (resolve_coords h))"
  by (auto simp: ids_nonzero_def locate_def split: option.splits prod.splits)

lemma locate_fallback:
  "\<not> ids_nonzero hd_opt \<Longrightarrow> locate n i hd_opt = fallback_placement n i"
  by (auto simp: ids_nonzero_def locate_def split: option.splits prod.splits)

lemma collect_all_Some:
  "\<forall>x \<in> set xs. x \<noteq> None \<Longrightarrow> collect xs = Some (map the xs)"
  by (induction xs rule: collect.induct) auto

lemma locate_not_None: "i < n \<Longrightarrow> locate n i h \<noteq> None"
  by (cases "ids_nonzero h") (auto dest: locate_ids_nonzero [of _ n i] simp: locate_fallback fallback_Some)

lemma read_headers_Some:
  assumes "length hs = n"
  shows "read_headers n hs = Some (map (\<lambda>i. the (locate n i (hs ! i))) [0..<n])"
proof -
  let ?xs = "map (\<lambda>(i, h). locate n i h) (zip [0..<n] hs)"
  have "\<forall>x \<in> set ?xs. x \<noteq> None"
  proof
    fix x assume "x \<in> set ?xs"
    then obtain i where "i < n" "x = locate n i (hs ! i)"
      using assms by (auto simp: set_zip)
    then show "x \<noteq> None" by (simp add: locate_not_None)
  qed
  then have "collect ?xs = Some (map the ?xs)" by (rule collect_all_Some)
  moreover have "map the ?xs = map (\<lambda>i. the (locate n i (hs ! i))) [0..<n]"
    using assms by (intro nth_equalityI) auto
  ultimately show ?thesis by (simp add: read_headers_def)
qed

text \<open>
  Claim C2. In a file of \<open>n_traces\<close> traces the header loop gives every trace a
  placement: the trace at position \<open>i\<close> keeps its inline and crossline ids when both
  are read and non-zero, and is otherwise placed at inline \<open>i div grid_size + 1\<close> and
  crossline \<open>i mod grid_size + 1\<close>, where \<open>grid_size\<close> is the integer part of the
  square root of \<open>n_traces\<close>.
\<close>

theorem trace_placement:
  assumes "length hs = n_traces"
  shows "\<exists>ps. read_headers n_traces hs = Some ps \<and> length ps = n_traces \<and>
     (\<forall>i<n_traces.
        (ids_nonzero (hs ! i) \<longrightarrow>
           (\<exists>h. hs ! i = Some h \<and> INLINE_3D h = Some (fst (ps ! i)) \<and>
                CROSSLINE_3D h = Some (fst (snd (ps ! i))))) \<and>
        (\<not> ids_nonzero (hs ! i) \<longrightarrow>
           fst (ps ! i) = int i div int (grid_size n_traces) + 1 \<and>
           fst (snd (ps ! i)) = int i mod int (grid_size n_traces) + 1)) \<and>
     grid_size n_traces = nat \<lfloor>sqrt (real n_traces)\<rfloor>"
proof -
  let ?ps = "map (\<lambda>i. the (locate n_traces i (hs ! i))) [0..<n_traces]"
  have a: "read_headers n_traces hs = Some ?ps"
    using assms by (rule read_headers_Some)
  have b: "length ?ps = n_traces" by simp
  have c: "\<forall>i<n_traces.
        (ids_nonzero (hs ! i) \<longrightarrow>
           (\<exists>h. hs ! i = Some h \<and> INLINE_3D h = Some (fst (?ps ! i)) \<and>
                CROSSLINE_3D h = Some (fst (snd (?ps ! i))))) \<and>
        (\<not> ids_nonzero (hs ! i) \<longrightarrow>
           fst (?ps ! i) = int i div int (grid_size n_traces) + 1 \<and>
           fst (snd (?ps ! i)) = int i mod int (grid_size n_traces) + 1)"
  proof (intro allI impI conjI)
    fix i assume i: "i < n_traces" and nz: "ids_nonzero (hs ! i)"
    from locate_ids_nonzero [OF nz, of n_traces i] i
    show "\<exists>h. hs ! i = Some h \<and> INLINE_3D h = Some (fst (?ps ! i)) \<and>
                CROSSLINE_3D h = Some (fst (snd (?ps ! i)))"
      by auto
  next
    fix i assume i: "i < n_traces" and nz: "\<not> ids_nonzero (hs ! i)"
    then show "fst (?ps ! i) = int i div int (grid_size n_traces) + 1"
      by (simp add: locate_fallback fallback_Some)
  next
    fix i assume i: "i < n_traces" and nz: "\<not> ids_nonzero (hs ! i)"
    then show "fst (snd (?ps ! i)) = int i mod int (grid_size n_traces) + 1"
      by (simp add: locate_fallback fallback_Some)
  qed
  from a b c show ?thesis by (simp add: grid_size_def del: length_map)
qed

text \<open>In a set of 100 traces (grid size 10) whose headers carry inline 0 and crossline 0,
  the trace at position 37 is placed at inline 4, crossline 8.\<close>

theorem trace_placement_witness:
  "length (replicate 100 (Some \<lparr>INLINE_3D = Some 0, CROSSLINE_3D = Some 0, CDP_X = Some 7,
      CDP_Y = Some 9, SourceX = Some 0, SourceY = Some 0\<rparr>)) = 100 \<and> (37::nat) < 100 \<and>
   \<not> ids_nonzero (replicate 100 (Some \<lparr>INLINE_3D = Some 0, CROSSLINE_3D = Some 0, CDP_X = Some 7,
      CDP_Y = Some 9, SourceX = Some 0, SourceY = Some 0\<rparr>) ! 37) \<and>
   (\<exists>ps. read_headers 100 (replicate 100 (Some \<lparr>INLINE_3D = Some 0, CROSSLINE_3D = Some 0,
      CDP_X = Some 7, CDP_Y = Some 9, SourceX = Some 0, SourceY = Some 0\<rparr>)) = Some ps \<and>
      fst (ps ! 37) = 4 \<and> fst (snd (ps ! 37)) = 8)"
proof -
  let ?hs = "replicate 100 (Some \<lparr>INLINE_3D = Some 0, CROSSLINE_3D = Some 0, CDP_X = Some 7,
      CDP_Y = Some 9, SourceX = Some 0, SourceY = Some 0\<rparr>)"
  have l: "length ?hs = 100" by simp
  have n: "\<not> ids_nonzero (?hs ! 37)"
    by (simp add: ids_nonzero_def)
  from trace_placement [OF l] obtain ps where
    ps: "read_headers 100 ?hs = Some ps"
    and all: "\<forall>i<100.
        (\<not> ids_nonzero (?hs ! i) \<longrightarrow>
           fst (ps ! i) = int i div int (grid_size 100) + 1 \<and>
           fst (snd (ps ! i)) = int i mod int (grid_size 100) + 1)"
    by blast
  from all n have "fst (ps ! 37) = 4 \<and> fst (snd (ps ! 37)) = 8"
    by (simp add: grid_size_100)
  with ps have "\<exists>ps. read_headers 100 ?hs = Some ps \<and> fst (ps ! 37) = 4 \<and> fst (snd (ps ! 37)) = 8"
    by blast
  with l n show ?thesis by simp
qed

section \<open>Geometry Estimator: properties\<close>

lemma coord_len_le: "coord_len es \<le> length es"
  unfolding coord_len_def by (metis length_map length_remdups_leq)

lemma zip4_unzip:
  "zip (map (\<lambda>(il, xl, x, y). il) ts) (zip (map (\<lambda>(il, xl, x, y). xl) ts)
     (zip (map (\<lambda>(il, xl, x, y). x) ts) (map (\<lambda>(il, xl, x, y). y) ts))) = ts"
  by (induction ts) auto

lemma coord_entries_unzip:
  "coord_entries (map (\<lambda>(il, xl, x, y). il) ts) (map (\<lambda>(il, xl, x, y). xl) ts)
     (map (\<lambda>(il, xl, x, y). x) ts) (map (\<lambda>(il, xl, x, y). y) ts) =
   map (\<lambda>(il, xl, x, y). ((il, xl), (x, y))) (filter carries_coordinates ts)"
proof -
  have "carries_coordinates = (\<lambda>(il, xl, x, y). x \<noteq> 0 \<and> y \<noteq> 0)"
    by (auto simp: carries_coordinates_def fun_eq_iff)
  then show ?thesis by (simp add: coord_entries_def zip4_unzip)
qed

lemma geometry_of_entries:
  "geometry_of ts ui ux =
     (let coord_map = map (\<lambda>(il, xl, x, y). ((il, xl), (x, y))) (filter carries_coordinates ts)
      in if coord_len coord_map < 4 then default_geometry
         else if ui = [] \<or> ux = [] then default_geometry
         else
           (let il_pts = inline_points coord_map ui ux;
                xl_pts = xline_points coord_map ui ux
            in \<lparr>inline_azimuth =
                   (case il_pts of (Some a, Some b) \<Rightarrow> azimuth a b | _ \<Rightarrow> 0),
                 xline_azimuth =
                   (case xl_pts of (Some a, Some b) \<Rightarrow> azimuth a b | _ \<Rightarrow> 90),
                 has_coordinates = True\<rparr>))"
  unfolding geometry_of_def calculate_survey_geometry_def coord_entries_unzip ..

text \<open>
  Claim C7. When fewer than four traces carry a coordinate pair with both components
  non-zero, \<^verbatim>\<open>calculate_survey_geometry\<close> returns the value with inline azimuth 0,
  crossline azimuth 90 and \<^verbatim>\<open>has_coordinates\<close> false.
\<close>

theorem geometry_default_below_four:
  assumes "length (filter (\<lambda>(il, xl, x, y). x \<noteq> 0 \<and> y \<noteq> 0)
             (zip inlines (zip xlines (zip x_coords y_coords)))) < 4"
  shows "calculate_survey_geometry inlines xlines x_coords y_coords unique_inlines unique_xlines =
           \<lparr>inline_azimuth = 0, xline_azimuth = 90, has_coordinates = False\<rparr>"
proof -
  have "coord_len (coord_entries inlines xlines x_coords y_coords)
          \<le> length (coord_entries inlines xlines x_coords y_coords)"
    by (rule coord_len_le)
  also have "\<dots> < 4" using assms by (simp add: coord_entries_def)
  finally show ?thesis
    by (simp add: calculate_survey_geometry_def default_geometry_def)
qed

text \<open>Three traces with coordinates and one without: the default is returned.\<close>

theorem geometry_default_below_four_witness:
  "length (filter (\<lambda>(il, xl, x, y). x \<noteq> 0 \<and> y \<noteq> 0)
     (zip [1, 1, 2, 2] (zip [1, 2, 1, 2] (zip [100, 100, 200, 0] [50, 60, 50, 60 :: int])))) < 4 \<and>
   calculate_survey_geometry [1, 1, 2, 2] [1, 2, 1, 2] [100, 100, 200, 0] [50, 60, 50, 60] [1, 2] [1, 2] =
     \<lparr>inline_azimuth = 0, xline_azimuth = 90, has_coordinates = False\<rparr>"
proof -
  have h: "length (filter (\<lambda>(il, xl, x, y). x \<noteq> 0 \<and> y \<noteq> 0)
     (zip [1, 1, 2, 2] (zip [1, 2, 1, 2] (zip [100, 100, 200, 0] [50, 60, 50, 60 :: int])))) < 4"
    by simp
  from h geometry_default_below_four [OF h, of "[1, 2]" "[1, 2]"] show ?thesis by blast
qed

text \<open>
  Claim C10. A trace enters the coordinate map only when both components of its pair
  are non-zero: every entry of the map has both components non-zero, and the map, its
  size and the estimated geometry are those of the traces with both components
  non-zero alone, so a trace with one zero component counts as one without coordinates.
\<close>

theorem coordinates_need_both_components:
  "(\<forall>e \<in> set (coord_entries inlines xlines x_coords y_coords).
       fst (snd e) \<noteq> 0 \<and> snd (snd e) \<noteq> 0) \<and>
   coord_entries (map (\<lambda>(il, xl, x, y). il) ts) (map (\<lambda>(il, xl, x, y). xl) ts)
       (map (\<lambda>(il, xl, x, y). x) ts) (map (\<lambda>(il, xl, x, y). y) ts) =
     map (\<lambda>(il, xl, x, y). ((il, xl), (x, y))) (filter carries_coordinates ts) \<and>
   geometry_of ts unique_inlines unique_xlines =
     geometry_of (filter carries_coordinates ts) unique_inlines unique_xlines \<and>
   ((x = 0 \<or> y = 0) \<longrightarrow>
      geometry_of (ts1 @ (il, xl, x, y) # ts2) unique_inlines unique_xlines =
      geometry_of (ts1 @ ts2) unique_inlines unique_xlines)"
proof (intro conjI impI)
  show "\<forall>e \<in> set (coord_entries inlines xlines x_coords y_coords).
       fst (snd e) \<noteq> 0 \<and> snd (snd e) \<noteq> 0"
    by (auto simp: coord_entries_def)
  show "coord_entries (map (\<lambda>(il, xl, x, y). il) ts) (map (\<lambda>(il, xl, x, y). xl) ts)
       (map (\<lambda>(il, xl, x, y). x) ts) (map (\<lambda>(il, xl, x, y). y) ts) =
     map (\<lambda>(il, xl, x, y). ((il, xl), (x, y))) (filter carries_coordinates ts)"
    by (rule coord_entries_unzip)
  show "geometry_of ts unique_inlines unique_xlines =
     geometry_of (filter carries_coordinates ts) unique_inlines unique_xlines"
    by (simp only: geometry_of_entries filter_filter conj_absorb)
next
  assume "x = 0 \<or> y = 0"
  then have "\<not> carries_coordinates (il, xl, x, y)"
    by (auto simp: carries_coordinates_def)
  then show "geometry_of (ts1 @ (il, xl, x, y) # ts2) unique_inlines unique_xlines =
      geometry_of (ts1 @ ts2) unique_inlines unique_xlines"
    by (simp add: geometry_of_entries)
qed

text \<open>A fourth trace with \<open>x = 0\<close> and \<open>y = 60\<close> leaves the three-entry map, and the
  default geometry, as they are.\<close>

theorem coordinates_need_both_components_witness:
  "((0::int) = 0 \<or> (60::int) = 0) \<and>
   coord_entries [1, 1, 2, 2] [1, 2, 1, 2] [100, 100, 200, 0] [50, 60, 50, 60] =
     [((1, 1), (100, 50)), ((1, 2), (100, 60)), ((2, 1), (200, 50))] \<and>
   geometry_of ([(1, 1, 100, 50), (1, 2, 100, 60), (2, 1, 200, 50)] @ (2, 2, 0, 60) # []) [1, 2] [1, 2] =
     geometry_of ([(1, 1, 100, 50), (1, 2, 100, 60), (2, 1, 200, 50)] @ []) [1, 2] [1, 2]"
proof -
  have h: "(0::int) = 0 \<or> (60::int) = 0" by simp
  have e: "coord_entries [1, 1, 2, 2] [1, 2, 1, 2] [100, 100, 200, 0] [50, 60, 50, 60] =
     [((1, 1), (100, 50)), ((1, 2), (100, 60)), ((2, 1), (200, 50))]"
    by (simp add: coord_entries_def)
  from coordinates_need_both_components
    [of "[1, 1, 2, 2]" "[1, 2, 1, 2]" "[100, 100, 200, 0]" "[50, 60, 50, 60]" "[]" "[1, 2]" "[1, 2]"
        0 60 "[(1, 1, 100, 50), (1, 2, 100, 60), (2, 1, 200, 50)]" 2 2 "[]"]
  show ?thesis using h e by blast
qed

lemma foldl_min_in: "foldl min (a::int) xs \<in> set (a # xs)"
  by (induction xs arbitrary: a) (auto simp: min_def)

lemma list_min_in: "xs \<noteq> [] \<Longrightarrow> list_min xs \<in> set xs"
  using foldl_min_in [of "hd xs" "tl xs"] by (simp add: list_min_def)

lemma scan_xlines_found:
  "\<not> pair_found acc \<Longrightarrow>
   pair_found (scan_xlines cm a b acc xs) \<longleftrightarrow>
     (\<exists>xl \<in> set xs. coord_get cm (a, xl) \<noteq> None \<and> coord_get cm (b, xl) \<noteq> None)"
  by (induction xs arbitrary: acc) (auto simp: pair_found_def Let_def)

lemma scan_inlines_found:
  "\<not> pair_found acc \<Longrightarrow>
   pair_found (scan_inlines cm a b acc xs) \<longleftrightarrow>
     (\<exists>il \<in> set xs. coord_get cm (il, a) \<noteq> None \<and> coord_get cm (il, b) \<noteq> None)"
  by (induction xs arbitrary: acc) (auto simp: pair_found_def Let_def)

lemma inline_points_found:
  assumes "ux \<noteq> []"
  shows "pair_found (inline_points cm ui ux) \<longleftrightarrow>
     (\<exists>xl \<in> set ux. coord_get cm (list_min ui, xl) \<noteq> None \<and> coord_get cm (list_max ui, xl) \<noteq> None)"
proof (cases "coord_get cm (list_min ui, list_min ux) = None \<or> coord_get cm (list_max ui, list_min ux) = None")
  case True
  then have "\<not> pair_found (coord_get cm (list_min ui, list_min ux), coord_get cm (list_max ui, list_min ux))"
    by (auto simp: pair_found_def)
  from scan_xlines_found [OF this] True show ?thesis
    by (simp add: inline_points_def Let_def)
next
  case False
  moreover have "list_min ux \<in> set ux" using assms by (rule list_min_in)
  ultimately show ?thesis
    by (auto simp: inline_points_def Let_def pair_found_def)
qed

lemma xline_points_found:
  assumes "ui \<noteq> []"
  shows "pair_found (xline_points cm ui ux) \<longleftrightarrow>
     (\<exists>il \<in> set ui. coord_get cm (il, list_min ux) \<noteq> None \<and> coord_get cm (il, list_max ux) \<noteq> None)"
proof (cases "coord_get cm (list_min ui, list_min ux) = None \<or> coord_get cm (list_min ui, list_max ux) = None")
  case True
  then have "\<not> pair_found (coord_get cm (list_min ui, list_min ux), coord_get cm (list_min ui, list_max ux))"
    by (auto simp: pair_found_def)
  from scan_inlines_found [OF this] True show ?thesis
    by (simp add: xline_points_def Let_def)
next
  case False
  moreover have "list_min ui \<in> set ui" using assms by (rule list_min_in)
  ultimately show ?thesis
    by (auto simp: xline_points_def Let_def pair_found_def)
qed

lemma not_found_case:
  "\<not> pair_found pts \<Longrightarrow> (case pts of (Some a, Some b) \<Rightarrow> f a b | _ \<Rightarrow> d) = d"
  by (auto simp: pair_found_def split: prod.splits option.splits)

text \<open>
  Claim C8, as the code has it. With at least four entries in the coordinate map (and
  non-empty axes): when for no crossline both the point at the smallest and the point
  at the largest inline are mapped, the inline azimuth is the default 0; when for no
  inline both the point at the smallest and the point at the largest crossline are
  mapped, the crossline azimuth is the default 90; and \<^verbatim>\<open>has_coordinates\<close> is true
  whether or not a pair was found for either axis.
\<close>

theorem axis_defaults:
  assumes "4 \<le> coord_len (coord_entries inlines xlines x_coords y_coords)"
    and "unique_inlines \<noteq> []" and "unique_xlines \<noteq> []"
  shows "((\<forall>xl \<in> set unique_xlines.
            coord_get (coord_entries inlines xlines x_coords y_coords) (list_min unique_inlines, xl) = None \<or>
            coord_get (coord_entries inlines xlines x_coords y_coords) (list_max unique_inlines, xl) = None) \<longrightarrow>
          inline_azimuth (calculate_survey_geometry inlines xlines x_coords y_coords
                            unique_inlines unique_xlines) = 0) \<and>
         ((\<forall>il \<in> set unique_inlines.
            coord_get (coord_entries inlines xlines x_coords y_coords) (il, list_min unique_xlines) = None \<or>
            coord_get (coord_entries inlines xlines x_coords y_coords) (il, list_max unique_xlines) = None) \<longrightarrow>
          xline_azimuth (calculate_survey_geometry inlines xlines x_coords y_coords
                           unique_inlines unique_xlines) = 90) \<and>
         has_coordinates (calculate_survey_geometry inlines xlines x_coords y_coords
                            unique_inlines unique_xlines)"
proof -
  let ?cm = "coord_entries inlines xlines x_coords y_coords"
  let ?g = "calculate_survey_geometry inlines xlines x_coords y_coords unique_inlines unique_xlines"
  have g: "?g = \<lparr>inline_azimuth =
                   (case inline_points ?cm unique_inlines unique_xlines of
                      (Some a, Some b) \<Rightarrow> azimuth a b | _ \<Rightarrow> 0),
                 xline_azimuth =
                   (case xline_points ?cm unique_inlines unique_xlines of
                      (Some a, Some b) \<Rightarrow> azimuth a b | _ \<Rightarrow> 90),
                 has_coordinates = True\<rparr>"
    using assms by (simp add: calculate_survey_geometry_def Let_def)
  have i: "inline_azimuth ?g = 0"
    if "\<forall>xl \<in> set unique_xlines.
            coord_get ?cm (list_min unique_inlines, xl) = None \<or>
            coord_get ?cm (list_max unique_inlines, xl) = None"
  proof -
    from that have "\<not> pair_found (inline_points ?cm unique_inlines unique_xlines)"
      using inline_points_found [OF assms(3), of ?cm unique_inlines] by auto
    then show ?thesis by (simp add: g not_found_case)
  qed
  have x: "xline_azimuth ?g = 90"
    if "\<forall>il \<in> set unique_inlines.
            coord_get ?cm (il, list_min unique_xlines) = None \<or>
            coord_get ?cm (il, list_max unique_xlines) = None"
  proof -
    from that have "\<not> pair_found (xline_points ?cm unique_inlines unique_xlines)"
      using xline_points_found [OF assms(2), of ?cm unique_xlines] by auto
    then show ?thesis by (simp add: g not_found_case)
  qed
  have h: "has_coordinates ?g" by (simp add: g)
  from i x h show ?thesis by blast
qed

lemma staircase_entries:
  "coord_entries [1, 1, 2, 3] [1, 2, 3, 4] [10, 10, 20, 30] [5, 6, 7, 8] =
     [((1, 1), (10, 5)), ((1, 2), (10, 6)), ((2, 3), (20, 7)), ((3, 4), (30, 8))]"
  by (simp add: coord_entries_def)

text \<open>Four mapped placements (1,1), (1,2), (2,3), (3,4): neither search finds a pair.\<close>

theorem axis_defaults_witness:
  "4 \<le> coord_len (coord_entries [1, 1, 2, 3] [1, 2, 3, 4] [10, 10, 20, 30] [5, 6, 7, 8]) \<and>
   [1, 2, 3 :: int] \<noteq> [] \<and> [1, 2, 3, 4 :: int] \<noteq> [] \<and>
   \<not> pair_found (inline_points (coord_entries [1, 1, 2, 3] [1, 2, 3, 4] [10, 10, 20, 30] [5, 6, 7, 8])
        [1, 2, 3] [1, 2, 3, 4]) \<and>
   \<not> pair_found (xline_points (coord_entries [1, 1, 2, 3] [1, 2, 3, 4] [10, 10, 20, 30] [5, 6, 7, 8])
        [1, 2, 3] [1, 2, 3, 4]) \<and>
   inline_azimuth (calculate_survey_geometry [1, 1, 2, 3] [1, 2, 3, 4] [10, 10, 20, 30] [5, 6, 7, 8]
                     [1, 2, 3] [1, 2, 3, 4]) = 0 \<and>
   xline_azimuth (calculate_survey_geometry [1, 1, 2, 3] [1, 2, 3, 4] [10, 10, 20, 30] [5, 6, 7, 8]
                    [1, 2, 3] [1, 2, 3, 4]) = 90 \<and>
   has_coordinates (calculate_survey_geometry [1, 1, 2, 3] [1, 2, 3, 4] [10, 10, 20, 30] [5, 6, 7, 8]
                      [1, 2, 3] [1, 2, 3, 4])"
proof -
  let ?cm = "coord_entries [1, 1, 2, 3] [1, 2, 3, 4] [10, 10, 20, 30] [5, 6, 7, 8]"
  have a: "4 \<le> coord_len ?cm"
    by (simp add: staircase_entries coord_len_def)
  have b: "[1, 2, 3 :: int] \<noteq> []" and c: "[1, 2, 3, 4 :: int] \<noteq> []"
    by simp_all
  have d: "\<forall>xl \<in> set [1, 2, 3, 4].
      coord_get ?cm (list_min [1, 2, 3], xl) = None \<or> coord_get ?cm (list_max [1, 2, 3], xl) = None"
    by (simp add: staircase_entries coord_get_def list_min_def list_max_def)
  have e: "\<forall>il \<in> set [1, 2, 3].
      coord_get ?cm (il, list_min [1, 2, 3, 4]) = None \<or> coord_get ?cm (il, list_max [1, 2, 3, 4]) = None"
    by (simp add: staircase_entries coord_get_def list_min_def list_max_def)
  have f: "\<not> pair_found (inline_points ?cm [1, 2, 3] [1, 2, 3, 4])"
    by (simp add: staircase_entries inline_points_def list_min_def list_max_def coord_get_def
        pair_found_def)
  have g: "\<not> pair_found (xline_points ?cm [1, 2, 3] [1, 2, 3, 4])"
    by (simp add: staircase_entries xline_points_def list_min_def list_max_def coord_get_def
        pair_found_def)
  have r: "inline_azimuth (calculate_survey_geometry [1, 1, 2, 3] [1, 2, 3, 4] [10, 10, 20, 30] [5, 6, 7, 8]
                     [1, 2, 3] [1, 2, 3, 4]) = 0 \<and>
   xline_azimuth (calculate_survey_geometry [1, 1, 2, 3] [1, 2, 3, 4] [10, 10, 20, 30] [5, 6, 7, 8]
                    [1, 2, 3] [1, 2, 3, 4]) = 90 \<and>
   has_coordinates (calculate_survey_geometry [1, 1, 2, 3] [1, 2, 3, 4] [10, 10, 20, 30] [5, 6, 7, 8]
                      [1, 2, 3] [1, 2, 3, 4])"
    using axis_defaults [OF a b c] d e by (elim conjE impE) (assumption | rule conjI)+
  show ?thesis
    by (intro conjI a b c f g r [THEN conjunct1] r [THEN conjunct2, THEN conjunct1]
        r [THEN conjunct2, THEN conjunct2])
qed

text \<open>
  With a single crossline the two looked-up points of the crossline axis are one and
  the same point, the test of line 294 succeeds, and the crossline azimuth is computed
  from a zero displacement: it is 0, not the default 90.
\<close>

lemma azimuth_same_point: "azimuth p p = 0"
  by (simp add: azimuth_def arctan2_def)

lemma single_crossline_azimuth:
  "calculate_survey_geometry [1, 2, 3, 4] [1, 1, 1, 1] [10, 20, 30, 40] [5, 5, 5, 5]
       [1, 2, 3, 4] [1] =
     \<lparr>inline_azimuth = azimuth (10, 5) (40, 5), xline_azimuth = 0, has_coordinates = True\<rparr>"
  by (simp add: calculate_survey_geometry_def coord_entries_def coord_len_def inline_points_def
      xline_points_def list_min_def list_max_def coord_get_def azimuth_same_point Let_def)

lemma diagonal_entries:
  "coord_entries [1, 2, 3, 4] [1, 2, 3, 4] [10, 20, 30, 40] [5, 5, 5, 5] =
     [((1, 1), (10, 5)), ((2, 2), (20, 5)), ((3, 3), (30, 5)), ((4, 4), (40, 5))]"
  by (simp add: coord_entries_def)

lemma diagonal_inline_points:
  "inline_points [((1, 1), (10, 5)), ((2, 2), (20, 5)), ((3, 3), (30, 5)), ((4, 4), (40, 5))]
     [1, 2, 3, 4] [1, 2, 3, 4] = (None, Some (40, 5))"
  by (simp add: inline_points_def list_min_def list_max_def coord_get_def)

lemma diagonal_xline_points:
  "xline_points [((1, 1), (10, 5)), ((2, 2), (20, 5)), ((3, 3), (30, 5)), ((4, 4), (40, 5))]
     [1, 2, 3, 4] [1, 2, 3, 4] = (None, Some (40, 5))"
  by (simp add: xline_points_def list_min_def list_max_def coord_get_def)

text \<open>
  Claim C8 as stated fails: four traces on the diagonal of a 4 x 4 grid, all with
  coordinates, give no pair for the inline axis and none for the crossline axis, and
  \<^verbatim>\<open>has_coordinates\<close> is true all the same.
\<close>

theorem has_coordinates_without_pair:
  "4 \<le> coord_len (coord_entries [1, 2, 3, 4] [1, 2, 3, 4] [10, 20, 30, 40] [5, 5, 5, 5]) \<and>
   \<not> pair_found (inline_points (coord_entries [1, 2, 3, 4] [1, 2, 3, 4] [10, 20, 30, 40] [5, 5, 5, 5])
        [1, 2, 3, 4] [1, 2, 3, 4]) \<and>
   \<not> pair_found (xline_points (coord_entries [1, 2, 3, 4] [1, 2, 3, 4] [10, 20, 30, 40] [5, 5, 5, 5])
        [1, 2, 3, 4] [1, 2, 3, 4]) \<and>
   calculate_survey_geometry [1, 2, 3, 4] [1, 2, 3, 4] [10, 20, 30, 40] [5, 5, 5, 5]
       [1, 2, 3, 4] [1, 2, 3, 4] =
     \<lparr>inline_azimuth = 0, xline_azimuth = 90, has_coordinates = True\<rparr>"
  by (simp add: calculate_survey_geometry_def diagonal_entries diagonal_inline_points
      diagonal_xline_points pair_found_def coord_len_def)

section \<open>Cube Assembler: properties\<close>

lemma has_shape_np_zeros: "has_shape a b c (np_zeros a b c)"
  by (simp add: has_shape_def np_zeros_def)

lemma cube_finite_np_zeros: "cube_finite (np_zeros a b c)"
  by (simp add: cube_finite_def np_zeros_def)

lemma has_shape_shape0: "has_shape a b c d \<Longrightarrow> shape0 d = a"
  by (simp add: has_shape_def shape0_def)

lemma has_shape_shape1: "has_shape a b c d \<Longrightarrow> shape1 d = (if a = 0 then 0 else b)"
  by (cases d) (auto simp: has_shape_def shape1_def)

lemma has_shape_shape2:
  "has_shape a b c d \<Longrightarrow> shape2 d = (if a = 0 \<or> b = 0 then 0 else c)"
  by (auto simp: has_shape_def shape2_def split: list.splits)

lemma has_shape_update:
  assumes "has_shape a b c d" and "length w = c"
  shows "has_shape a b c (d[i := (d ! i)[j := w]])"
proof (cases "i < length d")
  case False
  then show ?thesis using assms by (simp add: list_update_beyond)
next
  case True
  have p: "length ((d ! i)[j := w]) = b \<and> (\<forall>r \<in> set ((d ! i)[j := w]). length r = c)"
  proof -
    from True assms(1) have "length (d ! i) = b" and "\<forall>r \<in> set (d ! i). length r = c"
      by (auto simp: has_shape_def)
    moreover have "set ((d ! i)[j := w]) \<subseteq> insert w (set (d ! i))"
      by (rule set_update_subset_insert)
    ultimately show ?thesis using assms(2) by auto
  qed
  have "set (d[i := (d ! i)[j := w]]) \<subseteq> insert ((d ! i)[j := w]) (set d)"
    by (rule set_update_subset_insert)
  with p assms(1) show ?thesis
    unfolding has_shape_def by auto
qed

lemma cube_finite_update:
  assumes "cube_finite d" and "\<forall>v \<in> set w. is_finite v"
  shows "cube_finite (d[i := (d ! i)[j := w]])"
proof (cases "i < length d")
  case False
  then show ?thesis using assms by (simp add: list_update_beyond)
next
  case True
  have p: "\<forall>r \<in> set ((d ! i)[j := w]). \<forall>v \<in> set r. is_finite v"
  proof -
    from True have "d ! i \<in> set d" by simp
    with assms(1) have "\<forall>r \<in> set (d ! i). \<forall>v \<in> set r. is_finite v"
      unfolding cube_finite_def by blast
    moreover have "set ((d ! i)[j := w]) \<subseteq> insert w (set (d ! i))"
      by (rule set_update_subset_insert)
    ultimately show ?thesis using assms(2) by auto
  qed
  have "set (d[i := (d ! i)[j := w]]) \<subseteq> insert ((d ! i)[j := w]) (set d)"
    by (rule set_update_subset_insert)
  with p assms(1) show ?thesis
    unfolding cube_finite_def by auto
qed

text \<open>The vector an assignment stores: the given one, or its single element repeated.\<close>

lemma assign_trace_shape:
  assumes "has_shape a b c d"
  shows "assign_trace d i j v =
     (if i < a \<and> j < b
      then (if length v = c then Some (d[i := (d ! i)[j := v]])
            else if length v = 1 then Some (d[i := (d ! i)[j := replicate c (hd v)]])
            else None)
      else None)"
  using assms
  by (auto simp: assign_trace_def Let_def has_shape_shape0 has_shape_shape1 has_shape_shape2)

lemma is_finite_nan_to_num: "is_finite (nan_to_num v)"
  by (cases v) simp_all

lemma nan_to_num_finite: "is_finite v \<Longrightarrow> nan_to_num v = v"
  by (cases v) simp_all

lemma assign_trace_preserves:
  assumes "has_shape a b c d" and "assign_trace d i j v = Some d'"
  shows "has_shape a b c d'"
    and "cube_finite d \<Longrightarrow> \<forall>x \<in> set v. is_finite x \<Longrightarrow> cube_finite d'"
proof -
  from assms have cases: "(length v = c \<and> d' = d[i := (d ! i)[j := v]]) \<or>
      (length v = 1 \<and> d' = d[i := (d ! i)[j := replicate c (hd v)]])"
    by (auto simp: assign_trace_shape split: if_splits)
  then show "has_shape a b c d'"
    using assms(1) by (auto intro: has_shape_update)
  assume f: "cube_finite d" "\<forall>x \<in> set v. is_finite x"
  from cases show "cube_finite d'"
  proof
    assume "length v = c \<and> d' = d[i := (d ! i)[j := v]]"
    with f show ?thesis by (auto intro: cube_finite_update)
  next
    assume h: "length v = 1 \<and> d' = d[i := (d ! i)[j := replicate c (hd v)]]"
    then have "v \<noteq> []" by auto
    with f(2) have "is_finite (hd v)" by simp
    then have "\<forall>x \<in> set (replicate c (hd v)). is_finite x" by simp
    with f(1) h show ?thesis by (auto intro: cube_finite_update)
  qed
qed

lemma place_trace_preserves:
  assumes "has_shape a b c d"
  shows "has_shape a b c (place_trace im xm d t)"
    and "cube_finite d \<Longrightarrow> cube_finite (place_trace im xm d t)"
proof -
  obtain il xl tr where t: "t = (il, xl, tr)" by (cases t) auto
  show "has_shape a b c (place_trace im xm d t)"
    using assms by (auto simp: place_trace_def t split: option.splits
        dest: assign_trace_preserves(1))
  assume "cube_finite d"
  then show "cube_finite (place_trace im xm d t)"
    using assms
    by (auto simp: place_trace_def t is_finite_nan_to_num split: option.splits
        dest!: assign_trace_preserves(2) [rotated 1])
qed

lemma build_cube_preserves:
  "has_shape a b c d \<Longrightarrow> has_shape a b c (build_cube im xm d ts)"
  "has_shape a b c d \<Longrightarrow> cube_finite d \<Longrightarrow> cube_finite (build_cube im xm d ts)"
  unfolding build_cube_def
  by (induction ts arbitrary: d) (simp_all add: place_trace_preserves)

lemma place_trace_skip:
  "im il = None \<or> xm xl = None \<Longrightarrow> place_trace im xm d (il, xl, tr) = d"
  by (auto simp: place_trace_def split: option.splits)

lemma place_trace_other_cell:
  assumes "\<not> resolves_to im xm i j t"
  shows "place_trace im xm d t ! i ! j = d ! i ! j"
proof -
  obtain il xl tr where t: "t = (il, xl, tr)" by (cases t) auto
  have upd: "d[i' := (d ! i')[j' := w]] ! i ! j = d ! i ! j" if "i' \<noteq> i \<or> j' \<noteq> j" for i' j' w
  proof (cases "i' = i \<and> i < length d")
    case True
    with that show ?thesis by simp
  next
    case False
    then show ?thesis by (cases "i' = i") (simp_all add: list_update_beyond)
  qed
  show ?thesis
    using assms
    by (auto simp: place_trace_def t resolves_to_def assign_trace_def Let_def upd
        split: option.splits if_splits)
qed

lemma build_cube_other_cells:
  "\<forall>t \<in> set ts. \<not> resolves_to im xm i j t \<Longrightarrow> build_cube im xm d ts ! i ! j = d ! i ! j"
  unfolding build_cube_def
  by (induction ts arbitrary: d) (simp_all add: place_trace_other_cell)

lemma place_trace_writes:
  assumes "has_shape a b c d" and "im il = Some i" and "xm xl = Some j"
    and "i < a" and "j < b" and "length v = c"
  shows "place_trace im xm d (il, xl, Some v) ! i ! j = map nan_to_num v"
proof -
  from assms(1,4,5) have "i < length d" and "j < length (d ! i)"
    by (auto simp: has_shape_def)
  then show ?thesis
    using assms by (simp add: place_trace_def assign_trace_shape)
qed


lemma build_cube_append:
  "build_cube im xm d (ts1 @ ts2) = build_cube im xm (build_cube im xm d ts1) ts2"
  by (simp add: build_cube_def)

lemma build_cube_Cons:
  "build_cube im xm d (t # ts) = build_cube im xm (place_trace im xm d t) ts"
  by (simp add: build_cube_def)

lemma build_cube_last_writer:
  assumes shape: "has_shape a b c d0"
    and k: "k < length ts" and tk: "ts ! k = (il, xl, Some v)" and len: "length v = c"
    and im: "im il = Some i" and xm: "xm xl = Some j" and i: "i < a" and j: "j < b"
    and later: "\<forall>m. k < m \<and> m < length ts \<longrightarrow> \<not> resolves_to im xm i j (ts ! m)"
  shows "build_cube im xm d0 ts ! i ! j = map nan_to_num v"
proof -
  let ?pre = "take k ts" and ?post = "drop (Suc k) ts"
  have split: "ts = ?pre @ (il, xl, Some v) # ?post"
    using k tk by (metis id_take_nth_drop)
  have post: "\<forall>t \<in> set ?post. \<not> resolves_to im xm i j t"
  proof
    fix t assume "t \<in> set ?post"
    then obtain n where "n < length ?post" and "t = ?post ! n"
      by (auto simp: in_set_conv_nth)
    then have "t = ts ! (Suc k + n)" and "Suc k + n < length ts"
      by auto
    with later show "\<not> resolves_to im xm i j t" by simp
  qed
  have "has_shape a b c (build_cube im xm d0 ?pre)"
    using shape by (rule build_cube_preserves(1))
  then have "place_trace im xm (build_cube im xm d0 ?pre) (il, xl, Some v) ! i ! j = map nan_to_num v"
    using im xm i j len by (rule place_trace_writes)
  moreover have "build_cube im xm d0 ts =
      build_cube im xm (place_trace im xm (build_cube im xm d0 ?pre) (il, xl, Some v)) ?post"
    by (subst split) (simp only: build_cube_append build_cube_Cons)
  ultimately show ?thesis
    using build_cube_other_cells [OF post] by simp
qed

section \<open>The volume and the statistics of a file\<close>

lemma read_headers_traces:
  "read_headers (length (traces f)) (map header (traces f)) = Some (resolved f)"
proof -
  have "length (map header (traces f)) = length (traces f)" by simp
  from read_headers_Some [OF this] show ?thesis by (simp add: resolved_def)
qed

lemma length_resolved: "length (resolved f) = length (traces f)"
proof -
  have "length (map header (traces f)) = length (traces f)" by simp
  from read_headers_Some [OF this] show ?thesis by (simp add: resolved_def)
qed

lemma unique_sorted_Nil: "unique_sorted xs = [] \<longleftrightarrow> xs = []"
proof -
  have "set (unique_sorted xs) = set xs" by (simp add: unique_sorted_def)
  then show ?thesis by (metis set_empty)
qed

lemma axes_Nil:
  "inline_axis f = [] \<longleftrightarrow> traces f = []" "xline_axis f = [] \<longleftrightarrow> traces f = []"
  using length_resolved [of f]
  by (auto simp: inline_axis_def xline_axis_def unique_sorted_Nil)

lemma has_shape_loaded_cube:
  "has_shape (length (inline_axis f)) (length (xline_axis f)) (length (samples f)) (loaded_cube f)"
  unfolding loaded_cube_def assemble_cube_def
  by (rule build_cube_preserves(1) [OF has_shape_np_zeros])

lemma cube_finite_loaded_cube: "cube_finite (loaded_cube f)"
  unfolding loaded_cube_def assemble_cube_def
  by (rule build_cube_preserves(2) [OF has_shape_np_zeros cube_finite_np_zeros])

lemma length_concat_const:
  "\<forall>x \<in> set xs. length x = n \<Longrightarrow> length (concat xs) = length xs * n"
  by (induction xs) auto

lemma length_flatten:
  assumes "has_shape a b c d"
  shows "length (flatten d) = a * b * c"
proof -
  have 1: "length (concat d) = a * b"
    using assms length_concat_const [of d b] by (simp add: has_shape_def)
  have "\<forall>r \<in> set (concat d). length r = c"
    using assms by (auto simp: has_shape_def)
  then have "length (concat (concat d)) = length (concat d) * c"
    by (rule length_concat_const)
  with 1 show ?thesis by (simp add: flatten_def)
qed

lemma has_shape_clean_cube: "has_shape a b c d \<Longrightarrow> has_shape a b c (clean_cube d)"
  by (auto simp: has_shape_def clean_cube_def)

lemma map_idem: "\<forall>x \<in> set xs. f x = x \<Longrightarrow> map f xs = xs"
  by (induction xs) auto

lemma clean_cube_finite: "cube_finite d \<Longrightarrow> clean_cube d = d"
  unfolding clean_cube_def cube_finite_def
  by (intro map_idem ballI) (simp add: nan_to_num_finite)

lemma amplitude_statistics_None_iff:
  assumes "has_shape a b c d"
  shows "amplitude_statistics d = None \<longleftrightarrow> a * b * c = 0"
proof -
  have "length (flatten (clean_cube d)) = a * b * c"
    using assms by (intro length_flatten has_shape_clean_cube)
  then have "flatten (clean_cube d) = [] \<longleftrightarrow> a * b * c = 0"
    by (metis length_0_conv)
  then show ?thesis
    by (auto simp: amplitude_statistics_def np_min_def np_max_def Let_def split: list.splits)
qed

lemma loaded_statistics_None_iff:
  "amplitude_statistics (loaded_cube f) = None \<longleftrightarrow> traces f = [] \<or> samples f = []"
  using amplitude_statistics_None_iff [OF has_shape_loaded_cube, of f]
  by (auto simp: axes_Nil)

section \<open>Statistics Engine: properties\<close>

lemma all_finite_map_Fin: "all_finite xs \<longleftrightarrow> (\<exists>rs. xs = map Fin rs)"
proof
  assume "all_finite xs"
  then show "\<exists>rs. xs = map Fin rs"
  proof (induction xs)
    case Nil
    then show ?case by simp
  next
    case (Cons x xs)
    then obtain rs where "xs = map Fin rs" by (auto simp: all_finite_def)
    moreover from Cons.prems obtain r where "x = Fin r"
      by (cases x) (auto simp: all_finite_def)
    ultimately have "x # xs = map Fin (r # rs)" by simp
    then show ?case ..
  qed
next
  assume "\<exists>rs. xs = map Fin rs"
  then show "all_finite xs" by (auto simp: all_finite_def)
qed

lemma foldl_fl_add: "foldl fl_add (Fin a) (map Fin rs) = Fin (a + sum_list rs)"
  by (induction rs arbitrary: a) (simp_all add: add.assoc)

lemma np_sum_Fin: "np_sum (map Fin rs) = Fin (sum_list rs)"
  by (simp add: np_sum_def foldl_fl_add)

lemma np_mean_Fin: "rs \<noteq> [] \<Longrightarrow> np_mean (map Fin rs) = Fin (sum_list rs / real (length rs))"
  by (simp add: np_mean_def np_sum_Fin)

lemma sum_list_nonneg_real: "\<forall>x \<in> set xs. (0::real) \<le> x \<Longrightarrow> 0 \<le> sum_list xs"
  by (induction xs) auto

lemma np_std_Fin:
  assumes "rs \<noteq> []"
  shows "np_std (map Fin rs) =
           Fin (sqrt (sum_list (map (\<lambda>x. (x - sum_list rs / real (length rs)) *
                                          (x - sum_list rs / real (length rs))) rs)
                      / real (length rs)))"
proof -
  let ?m = "sum_list rs / real (length rs)"
  let ?sq = "map (\<lambda>x. (x - ?m) * (x - ?m)) rs"
  have dev: "map (\<lambda>x. fl_mul (fl_sub x (Fin ?m)) (fl_sub x (Fin ?m))) (map Fin rs) = map Fin ?sq"
    by (simp add: fl_sub_def)
  have "0 \<le> sum_list ?sq" by (rule sum_list_nonneg_real) simp
  then have nonneg: "\<not> sum_list ?sq / real (length rs) < 0"
    by (simp add: not_less)
  have ne: "?sq \<noteq> []" using assms by simp
  have "np_std (map Fin rs) = fl_sqrt (np_mean (map Fin ?sq))"
    unfolding np_std_def np_mean_Fin [OF assms] Let_def dev ..
  also have "\<dots> = fl_sqrt (Fin (sum_list ?sq / real (length rs)))"
    using np_mean_Fin [OF ne] by simp
  also have "\<dots> = Fin (sqrt (sum_list ?sq / real (length rs)))"
    using nonneg by simp
  finally show ?thesis .
qed

lemma foldl_fl_minimum: "foldl fl_minimum (Fin a) (map Fin rs) = Fin (foldl min a rs)"
  by (induction rs arbitrary: a) (auto simp: fl_minimum_def min_def)

lemma foldl_fl_maximum: "foldl fl_maximum (Fin a) (map Fin rs) = Fin (foldl max a rs)"
  by (induction rs arbitrary: a) (auto simp: fl_maximum_def max_def)

lemma foldl_min_Min: "foldl min (a::real) rs = Min (set (a # rs))"
proof (induction rs arbitrary: a)
  case Nil
  then show ?case by simp
next
  case (Cons r rs)
  have "Min (set (min a r # rs)) = Min (set (a # r # rs))"
  proof (cases "rs = []")
    case True
    then show ?thesis by (simp add: min.commute)
  next
    case False
    then have "Min (insert (min a r) (set rs)) = min (min a r) (Min (set rs))"
      by simp
    moreover from False have "Min (insert a (insert r (set rs))) = min a (min r (Min (set rs)))"
      by simp
    ultimately show ?thesis by (simp add: min.assoc)
  qed
  with Cons show ?case by simp
qed

lemma foldl_max_Max: "foldl max (a::real) rs = Max (set (a # rs))"
proof (induction rs arbitrary: a)
  case Nil
  then show ?case by simp
next
  case (Cons r rs)
  have "Max (set (max a r # rs)) = Max (set (a # r # rs))"
  proof (cases "rs = []")
    case True
    then show ?thesis by (simp add: max.commute)
  next
    case False
    then have "Max (insert (max a r) (set rs)) = max (max a r) (Max (set rs))"
      by simp
    moreover from False have "Max (insert a (insert r (set rs))) = max a (max r (Max (set rs)))"
      by simp
    ultimately show ?thesis by (simp add: max.assoc)
  qed
  with Cons show ?case by simp
qed

lemma np_min_Fin: "rs \<noteq> [] \<Longrightarrow> np_min (map Fin rs) = Some (Fin (Min (set rs)))"
  by (cases rs) (simp_all add: np_min_def foldl_fl_minimum foldl_min_Min)

lemma np_max_Fin: "rs \<noteq> [] \<Longrightarrow> np_max (map Fin rs) = Some (Fin (Max (set rs)))"
  by (cases rs) (simp_all add: np_max_def foldl_fl_maximum foldl_max_Max)

lemma fl_insort_Fin: "fl_insort (Fin x) (map Fin ys) = map Fin (insort x ys)"
  by (induction ys) auto

lemma np_sort_Fin: "np_sort (map Fin rs) = map Fin (sort rs)"
proof -
  have "foldr fl_insort (map Fin rs) [] = map Fin (foldr insort rs [])"
    by (induction rs) (simp_all add: fl_insort_Fin)
  then show ?thesis by (simp add: np_sort_def sort_key_def)
qed

lemma lerp_Fin: "lerp (Fin a) (Fin b) t = Fin (a + (b - a) * t)"
  by (simp add: lerp_def fl_sub_def Let_def algebra_simps)

lemma np_percentile_Fin:
  assumes "rs \<noteq> []"
  shows "np_percentile (map Fin rs) q = Fin (percentile_real rs q)"
proof -
  define n where "n = length rs"
  define v where "v = q / 100 * real (n - 1)"
  define lo where "lo = min (nat \<lfloor>v\<rfloor>) (n - 1)"
  define hi where "hi = min (nat \<lfloor>v\<rfloor> + 1) (n - 1)"
  have n: "0 < n" using assms by (simp add: n_def)
  have "lo \<le> n - 1" "hi \<le> n - 1"
    by (simp_all add: lo_def hi_def)
  with n have "lo < n" "hi < n" by linarith+
  then have "lo < length (sort rs)" "hi < length (sort rs)"
    by (simp_all add: n_def)
  then have nth: "map Fin (sort rs) ! lo = Fin (sort rs ! lo)"
    "map Fin (sort rs) ! hi = Fin (sort rs ! hi)"
    by simp_all
  have nan: "\<not> (length (map Fin rs) = 0 \<or> NaN \<in> set (map Fin rs))"
    using assms by auto
  have "np_percentile (map Fin rs) q =
      lerp (map Fin (sort rs) ! lo) (map Fin (sort rs) ! hi) (v - real (nat \<lfloor>v\<rfloor>))"
    unfolding np_percentile_def Let_def if_not_P [OF nan] np_sort_Fin
    by (simp only: length_map lo_def hi_def v_def n_def)
  also have "\<dots> = Fin (sort rs ! lo + (sort rs ! hi - sort rs ! lo) * (v - real (nat \<lfloor>v\<rfloor>)))"
    unfolding nth lerp_Fin ..
  also have "\<dots> = Fin (percentile_real rs q)"
    unfolding percentile_real_def Let_def
    by (simp only: lo_def hi_def v_def n_def)
  finally show ?thesis .
qed

lemma le_pred_less: "0 < (n::nat) \<Longrightarrow> k \<le> n - 1 \<Longrightarrow> k < n"
  by arith

lemma percentile_real_between:
  assumes "rs \<noteq> []" and "0 \<le> q"
  shows "sort rs ! min (nat \<lfloor>q / 100 * real (length rs - 1)\<rfloor>) (length rs - 1)
           \<le> percentile_real rs q"
    and "percentile_real rs q
           \<le> sort rs ! min (nat \<lfloor>q / 100 * real (length rs - 1)\<rfloor> + 1) (length rs - 1)"
proof -
  define n where "n = length rs"
  define v where "v = q / 100 * real (n - 1)"
  define lo where "lo = min (nat \<lfloor>v\<rfloor>) (n - 1)"
  define hi where "hi = min (nat \<lfloor>v\<rfloor> + 1) (n - 1)"
  define g where "g = v - real (nat \<lfloor>v\<rfloor>)"
  have n: "0 < n" using assms(1) by (simp add: n_def)
  have v: "0 \<le> v" using assms(2) by (simp add: v_def)
  then have "real (nat \<lfloor>v\<rfloor>) = of_int \<lfloor>v\<rfloor>" by simp
  then have g: "0 \<le> g" "g \<le> 1" unfolding g_def by linarith+
  have "lo \<le> hi" by (simp add: lo_def hi_def min_def)
  moreover have "hi \<le> n - 1" by (simp add: hi_def)
  with n have "hi < n" by (rule le_pred_less)
  then have "hi < length (sort rs)" by (simp add: n_def)
  ultimately have le: "sort rs ! lo \<le> sort rs ! hi"
    by (intro sorted_nth_mono) simp_all
  have p: "percentile_real rs q = sort rs ! lo + (sort rs ! hi - sort rs ! lo) * g"
    unfolding percentile_real_def Let_def
    by (simp only: lo_def hi_def v_def n_def g_def)
  have "0 \<le> (sort rs ! hi - sort rs ! lo) * g"
    using le g(1) by simp
  then have 1: "sort rs ! lo \<le> percentile_real rs q" by (simp add: p)
  have "(sort rs ! hi - sort rs ! lo) * g \<le> (sort rs ! hi - sort rs ! lo) * 1"
    using le g(2) by (intro mult_left_mono) simp_all
  then have 2: "percentile_real rs q \<le> sort rs ! hi" by (simp add: p)
  from 1 show "sort rs ! min (nat \<lfloor>q / 100 * real (length rs - 1)\<rfloor>) (length rs - 1)
           \<le> percentile_real rs q"
    by (simp only: lo_def v_def n_def)
  from 2 show "percentile_real rs q
           \<le> sort rs ! min (nat \<lfloor>q / 100 * real (length rs - 1)\<rfloor> + 1) (length rs - 1)"
    by (simp only: hi_def v_def n_def)
qed

lemma sort_nth_in_set:
  assumes "rs \<noteq> []"
  shows "sort rs ! min k (length rs - 1) \<in> set rs"
proof -
  have "0 < length rs" using assms by simp
  moreover have "min k (length rs - 1) \<le> length rs - 1" by simp
  ultimately have "min k (length rs - 1) < length rs" by (rule le_pred_less)
  then have "min k (length rs - 1) < length (sort rs)" by simp
  then have "sort rs ! min k (length rs - 1) \<in> set (sort rs)" by (rule nth_mem)
  then show ?thesis by simp
qed

lemma percentile_real_bounds:
  assumes "rs \<noteq> []" and "0 \<le> q"
  shows "Min (set rs) \<le> percentile_real rs q" and "percentile_real rs q \<le> Max (set rs)"
proof -
  have "Min (set rs) \<le> sort rs ! min (nat \<lfloor>q / 100 * real (length rs - 1)\<rfloor>) (length rs - 1)"
    using sort_nth_in_set [OF assms(1)] by (intro Min_le) simp_all
  with percentile_real_between(1) [OF assms]
  show "Min (set rs) \<le> percentile_real rs q" by linarith
  have "sort rs ! min (nat \<lfloor>q / 100 * real (length rs - 1)\<rfloor> + 1) (length rs - 1) \<le> Max (set rs)"
    using sort_nth_in_set [OF assms(1)] by (intro Max_ge) simp_all
  with percentile_real_between(2) [OF assms]
  show "percentile_real rs q \<le> Max (set rs)" by linarith
qed

lemma percentile_real_mono:
  assumes "rs \<noteq> []" and "0 \<le> q1" and "q1 \<le> q2"
  shows "percentile_real rs q1 \<le> percentile_real rs q2"
proof -
  define n where "n = length rs"
  define v1 where "v1 = q1 / 100 * real (n - 1)"
  define v2 where "v2 = q2 / 100 * real (n - 1)"
  have n: "0 < n" using assms(1) by (simp add: n_def)
  have q2: "0 \<le> q2" using assms(2,3) by simp
  have v1: "0 \<le> v1" using assms(2) by (simp add: v1_def)
  have v12: "v1 \<le> v2"
    unfolding v1_def v2_def using assms(3)
    by (intro mult_right_mono divide_right_mono) simp_all
  then have fl: "nat \<lfloor>v1\<rfloor> \<le> nat \<lfloor>v2\<rfloor>"
    by (intro nat_mono floor_mono)
  show ?thesis
  proof (cases "nat \<lfloor>v1\<rfloor> = nat \<lfloor>v2\<rfloor>")
    case True
    define lo where "lo = min (nat \<lfloor>v1\<rfloor>) (n - 1)"
    define hi where "hi = min (nat \<lfloor>v1\<rfloor> + 1) (n - 1)"
    have "lo \<le> hi" by (simp add: lo_def hi_def min_def)
    moreover have "hi \<le> n - 1" by (simp add: hi_def)
    with n have "hi < n" by (rule le_pred_less)
    then have "hi < length (sort rs)" by (simp add: n_def)
    ultimately have le: "sort rs ! lo \<le> sort rs ! hi"
      by (intro sorted_nth_mono) simp_all
    have p1: "percentile_real rs q1 =
        sort rs ! lo + (sort rs ! hi - sort rs ! lo) * (v1 - real (nat \<lfloor>v1\<rfloor>))"
      unfolding percentile_real_def Let_def
      by (simp only: lo_def hi_def v1_def n_def)
    have p2: "percentile_real rs q2 =
        sort rs ! lo + (sort rs ! hi - sort rs ! lo) * (v2 - real (nat \<lfloor>v1\<rfloor>))"
      unfolding percentile_real_def Let_def True [unfolded v1_def v2_def n_def]
      by (simp only: lo_def hi_def v1_def v2_def n_def True [unfolded v1_def v2_def n_def])
    have "(sort rs ! hi - sort rs ! lo) * (v1 - real (nat \<lfloor>v1\<rfloor>))
        \<le> (sort rs ! hi - sort rs ! lo) * (v2 - real (nat \<lfloor>v1\<rfloor>))"
      using le v12 by (intro mult_left_mono) simp_all
    then show ?thesis by (simp add: p1 p2)
  next
    case False
    with fl have lt: "nat \<lfloor>v1\<rfloor> + 1 \<le> nat \<lfloor>v2\<rfloor>" by simp
    define hi1 where "hi1 = min (nat \<lfloor>v1\<rfloor> + 1) (n - 1)"
    define lo2 where "lo2 = min (nat \<lfloor>v2\<rfloor>) (n - 1)"
    have "hi1 \<le> lo2" using lt by (simp add: hi1_def lo2_def min_def)
    moreover have "lo2 \<le> n - 1" by (simp add: lo2_def)
    with n have "lo2 < n" by (rule le_pred_less)
    then have "lo2 < length (sort rs)" by (simp add: n_def)
    ultimately have le: "sort rs ! hi1 \<le> sort rs ! lo2"
      by (intro sorted_nth_mono) simp_all
    have "percentile_real rs q1 \<le> sort rs ! hi1"
      using percentile_real_between(2) [OF assms(1,2)]
      by (simp only: hi1_def v1_def n_def)
    moreover have "sort rs ! lo2 \<le> percentile_real rs q2"
      using percentile_real_between(1) [OF assms(1) q2]
      by (simp only: lo2_def v2_def n_def)
    ultimately show ?thesis using le by linarith
  qed
qed

section \<open>Slice Extractor: properties\<close>

lemma np_index_nat: "i < n \<Longrightarrow> np_index n (int i) = Some i"
  by (simp add: np_index_def)

lemma np_index_less: "np_index n idx = Some i \<Longrightarrow> i < n"
  by (auto simp: np_index_def split: if_splits)

lemma has_shape_nth:
  assumes "has_shape a b c d" and "i < a"
  shows "length (d ! i) = b" and "\<forall>r \<in> set (d ! i). length r = c"
    and "j < b \<Longrightarrow> length (d ! i ! j) = c"
proof -
  from assms have m: "d ! i \<in> set d" by (simp add: has_shape_def)
  with assms(1) show "length (d ! i) = b" and r: "\<forall>r \<in> set (d ! i). length r = c"
    by (auto simp: has_shape_def)
  assume "j < b"
  with \<open>length (d ! i) = b\<close> have "d ! i ! j \<in> set (d ! i)" by simp
  with r show "length (d ! i ! j) = c" by blast
qed

lemma cube_finite_nth:
  assumes "cube_finite d" and "has_shape a b c d" and "i < a" and "j < b" and "k < c"
  shows "is_finite (d ! i ! j ! k)"
proof -
  from assms(2,3) have 1: "d ! i \<in> set d" by (simp add: has_shape_def)
  from has_shape_nth(1) [OF assms(2,3)] assms(4) have 2: "d ! i ! j \<in> set (d ! i)" by simp
  from has_shape_nth(3) [OF assms(2,3,4)] assms(5) have 3: "d ! i ! j ! k \<in> set (d ! i ! j)" by simp
  from assms(1) 1 2 3 show ?thesis unfolding cube_finite_def by blast
qed

text \<open>The three selected planes, entry by entry.\<close>

lemma inline_plane:
  assumes "has_shape a b c d" and "i < a"
  shows "has_shape_2d c b (transpose_2d c (map (map nan_to_num) (d ! i)))"
    and "k < c \<Longrightarrow> j < b \<Longrightarrow>
         transpose_2d c (map (map nan_to_num) (d ! i)) ! k ! j = nan_to_num (d ! i ! j ! k)"
proof -
  note len = has_shape_nth [OF assms]
  show "has_shape_2d c b (transpose_2d c (map (map nan_to_num) (d ! i)))"
    using len(1) by (auto simp: has_shape_2d_def transpose_2d_def)
  assume "k < c" and "j < b"
  then show "transpose_2d c (map (map nan_to_num) (d ! i)) ! k ! j = nan_to_num (d ! i ! j ! k)"
    using len(1) len(3) by (simp add: transpose_2d_def)
qed

lemma xline_plane:
  assumes "has_shape a b c d" and "j < b"
  shows "has_shape_2d c a (transpose_2d c (map (map nan_to_num) (map (\<lambda>plane. plane ! j) d)))"
    and "k < c \<Longrightarrow> i < a \<Longrightarrow>
         transpose_2d c (map (map nan_to_num) (map (\<lambda>plane. plane ! j) d)) ! k ! i =
           nan_to_num (d ! i ! j ! k)"
proof -
  have a: "length d = a" using assms(1) by (simp add: has_shape_def)
  then show "has_shape_2d c a (transpose_2d c (map (map nan_to_num) (map (\<lambda>plane. plane ! j) d)))"
    by (auto simp: has_shape_2d_def transpose_2d_def)
  assume "k < c" and "i < a"
  then show "transpose_2d c (map (map nan_to_num) (map (\<lambda>plane. plane ! j) d)) ! k ! i =
           nan_to_num (d ! i ! j ! k)"
    using a has_shape_nth(3) [OF assms(1) \<open>i < a\<close> assms(2)] by (simp add: transpose_2d_def)
qed

lemma sample_plane:
  assumes "has_shape a b c d" and "k < c"
  shows "has_shape_2d a b (map (map nan_to_num) (map (\<lambda>plane. map (\<lambda>row. row ! k) plane) d))"
    and "i < a \<Longrightarrow> j < b \<Longrightarrow>
         map (map nan_to_num) (map (\<lambda>plane. map (\<lambda>row. row ! k) plane) d) ! i ! j =
           nan_to_num (d ! i ! j ! k)"
proof -
  have a: "length d = a" using assms(1) by (simp add: has_shape_def)
  show "has_shape_2d a b (map (map nan_to_num) (map (\<lambda>plane. map (\<lambda>row. row ! k) plane) d))"
    using assms(1) by (auto simp: has_shape_2d_def has_shape_def)
  assume "i < a" and "j < b"
  then show "map (map nan_to_num) (map (\<lambda>plane. map (\<lambda>row. row ! k) plane) d) ! i ! j =
           nan_to_num (d ! i ! j ! k)"
    using a has_shape_nth(1) [OF assms(1) \<open>i < a\<close>] by simp
qed

lemma has_shape_2d_concat:
  assumes "has_shape_2d r c m"
  shows "length (concat m) = r * c"
  using assms length_concat_const [of m c] by (simp add: has_shape_2d_def)

lemma matrix_all_finite:
  assumes "has_shape_2d r c m" and "\<And>i j. i < r \<Longrightarrow> j < c \<Longrightarrow> is_finite (m ! i ! j)"
  shows "\<forall>row \<in> set m. all_finite row"
proof
  fix row assume "row \<in> set m"
  then obtain i where i: "i < length m" "row = m ! i" by (auto simp: in_set_conv_nth)
  with assms(1) have l: "length row = c" and ir: "i < r" by (auto simp: has_shape_2d_def)
  show "all_finite row"
    unfolding all_finite_def
  proof
    fix v assume "v \<in> set row"
    then obtain j where "j < length row" "v = row ! j" by (auto simp: in_set_conv_nth)
    with l i(2) assms(2) [OF ir] show "is_finite v" by simp
  qed
qed

lemma all_finite_concat: "\<forall>row \<in> set m. all_finite row \<Longrightarrow> all_finite (concat m)"
  by (auto simp: all_finite_def)

lemma slice_reply_Some:
  assumes "has_shape_2d r c m" and "0 < r" and "0 < c"
    and "\<forall>row \<in> set m. all_finite row"
  shows "\<exists>res. slice_reply m coords = Some res \<and> slice_values res = m \<and>
           coordinates res = coords \<and> slice_finite res"
proof -
  have "length (concat m) = r * c" using assms(1) by (rule has_shape_2d_concat)
  with assms(2,3) have "0 < length (concat m)" by simp
  then have ne: "concat m \<noteq> []" by auto
  from all_finite_concat [OF assms(4)] obtain rs where rs: "concat m = map Fin rs"
    by (auto simp: all_finite_map_Fin)
  with ne have rne: "rs \<noteq> []" by auto
  show ?thesis
    using assms(4)
    by (simp add: slice_reply_def Let_def rs np_min_Fin [OF rne] np_max_Fin [OF rne]
        np_mean_Fin [OF rne] np_std_Fin [OF rne] slice_finite_def)
qed

lemma slice_reply_finite:
  assumes "slice_reply m coords = Some res" and "\<forall>row \<in> set m. all_finite row"
  shows "slice_finite res"
proof -
  from assms(1) have ne: "concat m \<noteq> []"
    by (cases "concat m") (auto simp: slice_reply_def Let_def np_min_def)
  from all_finite_concat [OF assms(2)] obtain rs where rs: "concat m = map Fin rs"
    by (auto simp: all_finite_map_Fin)
  with ne have rne: "rs \<noteq> []" by auto
  from assms show ?thesis
    by (auto simp: slice_reply_def Let_def rs np_min_Fin [OF rne] np_max_Fin [OF rne]
        np_mean_Fin [OF rne] np_std_Fin [OF rne] slice_finite_def)
qed

text \<open>The slices of a processor that holds a volume of shape \<open>(a, b, c)\<close> with no empty
  axis and its three coordinate axes.\<close>

lemma inline_slice:
  assumes "data s = Some d" and "has_shape a b c d" and "0 < b" and "0 < c"
    and "xline_coords s = Some xs" and "sample_coords s = Some ss" and "i < a"
  shows "\<exists>res. get_slice_data s ''inline'' (int i) = Some res \<and>
           has_shape_2d c b (slice_values res) \<and>
           coordinates res = (IntAxis xs, FloatAxis ss) \<and>
           (\<forall>k<c. \<forall>j<b. slice_values res ! k ! j = nan_to_num (d ! i ! j ! k))"
proof -
  let ?m = "transpose_2d c (map (map nan_to_num) (d ! i))"
  have s0: "shape0 d = a" using assms(2) by (rule has_shape_shape0)
  have s2: "shape2 d = c" using assms(2,3,7) by (simp add: has_shape_shape2)
  have g: "get_slice_data s ''inline'' (int i) = slice_reply ?m (IntAxis xs, FloatAxis ss)"
    by (simp add: get_slice_data_def assms(1,5,6) s0 s2 np_index_nat [OF assms(7)])
  have sh: "has_shape_2d c b ?m" using assms(2,7) by (rule inline_plane(1))
  have nth: "?m ! k ! j = nan_to_num (d ! i ! j ! k)" if "k < c" "j < b" for k j
    using inline_plane(2) [OF assms(2,7) that] .
  have "\<forall>row \<in> set ?m. all_finite row"
    using sh by (rule matrix_all_finite) (simp only: nth is_finite_nan_to_num)
  from slice_reply_Some [OF sh assms(4,3) this, of "(IntAxis xs, FloatAxis ss)"]
  show ?thesis using sh nth by (auto simp: g)
qed

lemma xline_slice:
  assumes "data s = Some d" and "has_shape a b c d" and "0 < a" and "0 < c"
    and "inline_coords s = Some is" and "sample_coords s = Some ss" and "j < b"
  shows "\<exists>res. get_slice_data s ''xline'' (int j) = Some res \<and>
           has_shape_2d c a (slice_values res) \<and>
           coordinates res = (IntAxis is, FloatAxis ss) \<and>
           (\<forall>k<c. \<forall>i<a. slice_values res ! k ! i = nan_to_num (d ! i ! j ! k))"
proof -
  let ?m = "transpose_2d c (map (map nan_to_num) (map (\<lambda>plane. plane ! j) d))"
  have s1: "shape1 d = b" using assms(2,3) by (simp add: has_shape_shape1)
  have s2: "shape2 d = c" using assms(2,3,7) by (simp add: has_shape_shape2)
  have g: "get_slice_data s ''xline'' (int j) = slice_reply ?m (IntAxis is, FloatAxis ss)"
    by (simp add: get_slice_data_def assms(1,5,6) s1 s2 np_index_nat [OF assms(7)])
  have sh: "has_shape_2d c a ?m" using assms(2,7) by (rule xline_plane(1))
  have nth: "?m ! k ! i = nan_to_num (d ! i ! j ! k)" if "k < c" "i < a" for k i
    using xline_plane(2) [OF assms(2,7) that] .
  have "\<forall>row \<in> set ?m. all_finite row"
    using sh by (rule matrix_all_finite) (simp only: nth is_finite_nan_to_num)
  from slice_reply_Some [OF sh assms(4,3) this, of "(IntAxis is, FloatAxis ss)"]
  show ?thesis using sh nth by (auto simp: g)
qed

lemma sample_slice:
  assumes "data s = Some d" and "has_shape a b c d" and "0 < a" and "0 < b"
    and "inline_coords s = Some is" and "xline_coords s = Some xs" and "k < c"
  shows "\<exists>res. get_slice_data s ''sample'' (int k) = Some res \<and>
           has_shape_2d a b (slice_values res) \<and>
           coordinates res = (IntAxis is, IntAxis xs) \<and>
           (\<forall>i<a. \<forall>j<b. slice_values res ! i ! j = nan_to_num (d ! i ! j ! k))"
proof -
  let ?m = "map (map nan_to_num) (map (\<lambda>plane. map (\<lambda>row. row ! k) plane) d)"
  have s2: "shape2 d = c" using assms(2,3,4) by (simp add: has_shape_shape2)
  have g: "get_slice_data s ''sample'' (int k) = slice_reply ?m (IntAxis is, IntAxis xs)"
    by (simp add: get_slice_data_def assms(1,5,6) s2 np_index_nat [OF assms(7)])
  have sh: "has_shape_2d a b ?m" using assms(2,7) by (rule sample_plane(1))
  have nth: "?m ! i ! j = nan_to_num (d ! i ! j ! k)" if "i < a" "j < b" for i j
    using sample_plane(2) [OF assms(2,7) that] .
  have "\<forall>row \<in> set ?m. all_finite row"
    using sh by (rule matrix_all_finite) (simp only: nth is_finite_nan_to_num)
  from slice_reply_Some [OF sh assms(3,4) this, of "(IntAxis is, IntAxis xs)"]
  show ?thesis using sh nth by (auto simp: g)
qed

lemma get_slice_data_finite:
  assumes "data s = Some d" and "has_shape a b c d" and "0 < a" and "0 < b"
    and "get_slice_data s slice_type idx = Some res"
  shows "slice_finite res"
proof -
  have s0: "shape0 d = a" using assms(2) by (rule has_shape_shape0)
  have s1: "shape1 d = b" using assms(2,3) by (simp add: has_shape_shape1)
  have s2: "shape2 d = c" using assms(2,3,4) by (simp add: has_shape_shape2)
  consider
      (inline) i cs where "i < a"
        "slice_reply (transpose_2d c (map (map nan_to_num) (d ! i))) cs = Some res"
    | (xline) j cs where "j < b"
        "slice_reply (transpose_2d c (map (map nan_to_num) (map (\<lambda>plane. plane ! j) d))) cs = Some res"
    | (sample) k cs where "k < c"
        "slice_reply (map (map nan_to_num) (map (\<lambda>plane. map (\<lambda>row. row ! k) plane) d)) cs = Some res"
    using assms(5)
    by (auto simp: get_slice_data_def assms(1) s0 s1 s2 dest: np_index_less
        split: if_splits option.splits)
  then show ?thesis
  proof cases
    case inline
    have "\<forall>row \<in> set (transpose_2d c (map (map nan_to_num) (d ! i))). all_finite row"
      using inline_plane(1) [OF assms(2) inline(1)]
      by (rule matrix_all_finite)
        (simp only: inline_plane(2) [OF assms(2) inline(1)] is_finite_nan_to_num)
    with inline(2) show ?thesis by (rule slice_reply_finite)
  next
    case xline
    have "\<forall>row \<in> set (transpose_2d c (map (map nan_to_num) (map (\<lambda>plane. plane ! j) d))).
        all_finite row"
      using xline_plane(1) [OF assms(2) xline(1)]
      by (rule matrix_all_finite)
        (simp only: xline_plane(2) [OF assms(2) xline(1)] is_finite_nan_to_num)
    with xline(2) show ?thesis by (rule slice_reply_finite)
  next
    case sample
    have "\<forall>row \<in> set (map (map nan_to_num) (map (\<lambda>plane. map (\<lambda>row. row ! k) plane) d)).
        all_finite row"
      using sample_plane(1) [OF assms(2) sample(1)]
      by (rule matrix_all_finite)
        (simp only: sample_plane(2) [OF assms(2) sample(1)] is_finite_nan_to_num)
    with sample(2) show ?thesis by (rule slice_reply_finite)
  qed
qed

section \<open>Statistics of a volume\<close>

lemma flatten_clean_cube: "flatten (clean_cube d) = map nan_to_num (flatten d)"
  by (simp add: flatten_def clean_cube_def map_concat)

lemma all_finite_flatten_clean: "all_finite (flatten (clean_cube d))"
  by (simp add: flatten_clean_cube all_finite_def is_finite_nan_to_num)

lemma fl_le_Fin: "fl_le (Fin x) (Fin y) \<longleftrightarrow> x \<le> y"
  by (auto simp: fl_le_def)

lemma amplitude_statistics_Fin:
  assumes "flatten (clean_cube d) = map Fin rs" and "rs \<noteq> []"
  shows "amplitude_statistics d =
     Some \<lparr>actual_min = Fin (Min (set rs)), actual_max = Fin (Max (set rs)),
           display_min = Fin (percentile_real rs 5), display_max = Fin (percentile_real rs 95),
           mean = Fin (sum_list rs / real (length rs)),
           std = Fin (sqrt (sum_list (map (\<lambda>x. (x - sum_list rs / real (length rs)) *
                                          (x - sum_list rs / real (length rs))) rs)
                            / real (length rs))),
           p1 = Fin (percentile_real rs 1), p99 = Fin (percentile_real rs 99),
           p5 = Fin (percentile_real rs 5), p95 = Fin (percentile_real rs 95)\<rparr>"
  unfolding amplitude_statistics_def Let_def assms(1)
  by (simp only: np_min_Fin [OF assms(2)] np_max_Fin [OF assms(2)] np_mean_Fin [OF assms(2)]
      np_std_Fin [OF assms(2)] np_percentile_Fin [OF assms(2)] option.case)

lemma flatten_values:
  assumes "flatten d \<noteq> []"
  obtains rs where "flatten (clean_cube d) = map Fin rs" and "rs \<noteq> []"
proof -
  from all_finite_flatten_clean [of d] obtain rs where rs: "flatten (clean_cube d) = map Fin rs"
    by (auto simp: all_finite_map_Fin)
  from assms have "flatten (clean_cube d) \<noteq> []" by (simp add: flatten_clean_cube)
  with rs have "rs \<noteq> []" by auto
  with rs that show thesis by blast
qed

text \<open>
  Claim C6. For a volume with at least one cell the statistics exist; the minimum and
  maximum are those of the sanitized flattened values, the percentiles are the
  interpolated 1st, 5th, 95th and 99th percentiles of the same values, and
  \<open>actual_min \<le> p1 \<le> p5 \<le> p95 \<le> p99 \<le> actual_max\<close>.
\<close>

theorem statistics_ordered:
  assumes "flatten d \<noteq> []"
  shows "\<exists>st rs. amplitude_statistics d = Some st \<and>
           flatten (clean_cube d) = map Fin rs \<and>
           actual_min st = Fin (Min (set rs)) \<and> actual_max st = Fin (Max (set rs)) \<and>
           p1 st = Fin (percentile_real rs 1) \<and> p5 st = Fin (percentile_real rs 5) \<and>
           p95 st = Fin (percentile_real rs 95) \<and> p99 st = Fin (percentile_real rs 99) \<and>
           fl_le (p1 st) (p5 st) \<and> fl_le (p5 st) (p95 st) \<and> fl_le (p95 st) (p99 st) \<and>
           fl_le (actual_min st) (p1 st) \<and> fl_le (p99 st) (actual_max st)"
proof -
  from assms obtain rs where rs: "flatten (clean_cube d) = map Fin rs" and ne: "rs \<noteq> []"
    by (rule flatten_values)
  note st = amplitude_statistics_Fin [OF rs ne]
  have o1: "percentile_real rs 1 \<le> percentile_real rs 5"
    using ne by (rule percentile_real_mono) simp_all
  have o2: "percentile_real rs 5 \<le> percentile_real rs 95"
    using ne by (rule percentile_real_mono) simp_all
  have o3: "percentile_real rs 95 \<le> percentile_real rs 99"
    using ne by (rule percentile_real_mono) simp_all
  have o4: "Min (set rs) \<le> percentile_real rs 1"
    using ne by (rule percentile_real_bounds(1)) simp
  have o5: "percentile_real rs 99 \<le> Max (set rs)"
    using ne by (rule percentile_real_bounds(2)) simp
  show ?thesis
    by (rule exI [of _ "the (amplitude_statistics d)"], rule exI [of _ rs])
      (simp add: st rs fl_le_Fin o1 o2 o3 o4 o5)
qed

text \<open>A volume of one trace with samples 1 and NaN: the sanitized values are 1 and 0.\<close>

theorem statistics_ordered_witness:
  "flatten [[[Fin 1, NaN]]] \<noteq> [] \<and>
   (\<exists>st. amplitude_statistics [[[Fin 1, NaN]]] = Some st \<and>
      fl_le (p1 st) (p5 st) \<and> fl_le (p5 st) (p95 st) \<and> fl_le (p95 st) (p99 st) \<and>
      fl_le (actual_min st) (p1 st) \<and> fl_le (p99 st) (actual_max st))"
proof -
  have ne: "flatten [[[Fin 1, NaN]]] \<noteq> []" by (simp add: flatten_def)
  from statistics_ordered [OF ne] ne show ?thesis by blast
qed

lemma stats_finite_statistics:
  assumes "amplitude_statistics d = Some st"
  shows "stats_finite st"
proof -
  have "flatten d \<noteq> []"
  proof
    assume "flatten d = []"
    then have "flatten (clean_cube d) = []" by (simp add: flatten_clean_cube)
    then have "amplitude_statistics d = None"
      by (simp add: amplitude_statistics_def np_min_def)
    with assms show False by simp
  qed
  then obtain rs where rs: "flatten (clean_cube d) = map Fin rs" and ne: "rs \<noteq> []"
    by (rule flatten_values)
  from amplitude_statistics_Fin [OF rs ne] assms show ?thesis
    by (auto simp: stats_finite_def)
qed

section \<open>\<^verbatim>\<open>load_segy_file\<close>: the outcomes of a run\<close>

lemma segyio_open_Some: "segyio_open src = Some f \<longleftrightarrow> src = Some f \<and> traces f \<noteq> []"
  by (auto simp: segyio_open_def split: option.splits if_splits)

lemma segyio_open_traces: "traces f \<noteq> [] \<Longrightarrow> segyio_open (Some f) = Some f"
  by (simp add: segyio_open_def)

text \<open>The exits of \<^verbatim>\<open>load_segy_file\<close>.\<close>

lemma load_unopened: "segyio_open src = None \<Longrightarrow> load_segy_file capacity self src = (False, self)"
  by (simp add: load_segy_file_def)

lemma load_opened:
  assumes "traces f \<noteq> []"
  shows "load_segy_file capacity self (Some f) =
     (if capacity < volume_cells f
      then (False, self\<lparr>sample_coords := Some (samples f),
                        inline_coords := Some (inline_axis f),
                        xline_coords := Some (xline_axis f)\<rparr>)
      else
       (case amplitude_statistics (loaded_cube f) of
          None \<Rightarrow>
            (False, self\<lparr>sample_coords := Some (samples f),
                         inline_coords := Some (inline_axis f),
                         xline_coords := Some (xline_axis f),
                         data := Some (loaded_cube f),
                         inline_range := Some (inline_axis f),
                         xline_range := Some (xline_axis f),
                         sample_range := Some (samples f),
                         geometry := Some (loaded_geometry f)\<rparr>)
        | Some stats \<Rightarrow>
            (True, self\<lparr>sample_coords := Some (samples f),
                        inline_coords := Some (inline_axis f),
                        xline_coords := Some (xline_axis f),
                        data := Some (loaded_cube f),
                        inline_range := Some (inline_axis f),
                        xline_range := Some (xline_axis f),
                        sample_range := Some (samples f),
                        geometry := Some (loaded_geometry f),
                        amplitude_range := Some stats,
                        current_inline_idx := length (inline_axis f) div 2,
                        current_xline_idx := length (xline_axis f) div 2,
                        current_sample_idx := length (samples f) div 2\<rparr>)))"
proof -
  have ax: "inline_axis f \<noteq> []" "xline_axis f \<noteq> []"
    using assms by (simp_all add: axes_Nil)
  then have ne: "\<not> (unique_sorted (map (\<lambda>(il, xl, x, y). il) (resolved f)) = [] \<or>
                    unique_sorted (map (\<lambda>(il, xl, x, y). xl) (resolved f)) = [])"
    by (simp add: inline_axis_def xline_axis_def)
  have al: "allocation_fails capacity (length (inline_axis f)) (length (xline_axis f))
      (length (samples f)) \<longleftrightarrow> capacity < volume_cells f"
    by (simp add: allocation_fails_def volume_cells_def)
  show ?thesis
    unfolding load_segy_file_def segyio_open_traces [OF assms]
    by (simp add: read_headers_traces Let_def ne ax al loaded_cube_def [symmetric]
        loaded_geometry_def geometry_of_def inline_axis_def [symmetric] xline_axis_def [symmetric]
        split: option.splits)
qed


lemma load_no_samples:
  assumes "traces f \<noteq> []" and "samples f = []"
  shows "load_segy_file capacity self (Some f) =
          (False, self\<lparr>sample_coords := Some [],
                       inline_coords := Some (inline_axis f),
                       xline_coords := Some (xline_axis f),
                       data := Some (loaded_cube f),
                       inline_range := Some (inline_axis f),
                       xline_range := Some (xline_axis f),
                       sample_range := Some [],
                       geometry := Some (loaded_geometry f)\<rparr>)"
proof -
  have "amplitude_statistics (loaded_cube f) = None"
    using assms by (simp add: loaded_statistics_None_iff)
  moreover have "volume_cells f = 0" using assms(2) by (simp add: volume_cells_def)
  ultimately show ?thesis
    by (simp add: load_opened [OF assms(1)] assms(2))
qed

lemma load_success_iff:
  "fst (load_segy_file capacity self src) \<longleftrightarrow>
     (\<exists>f. src = Some f \<and> traces f \<noteq> [] \<and> samples f \<noteq> [] \<and> volume_cells f \<le> capacity)"
proof (cases "segyio_open src")
  case None
  then have "\<And>f. src = Some f \<Longrightarrow> traces f = []"
    by (auto simp: segyio_open_def split: if_splits)
  with None show ?thesis by (auto simp: load_unopened)
next
  case (Some f)
  then have f: "src = Some f" "traces f \<noteq> []" by (simp_all add: segyio_open_Some)
  show ?thesis
    using loaded_statistics_None_iff [of f] f(2)
    by (auto simp: f(1) load_opened [OF f(2)] split: option.splits)
qed

lemma load_True:
  assumes "load_segy_file capacity self src = (True, s')"
  obtains f st where "src = Some f" and "traces f \<noteq> []" and "samples f \<noteq> []"
    and "amplitude_statistics (loaded_cube f) = Some st"
    and "data s' = Some (loaded_cube f)" and "amplitude_range s' = Some st"
    and "inline_coords s' = Some (inline_axis f)" and "xline_coords s' = Some (xline_axis f)"
    and "sample_coords s' = Some (samples f)"
proof -
  from assms have "fst (load_segy_file capacity self src)" by simp
  then obtain f where f: "src = Some f" "traces f \<noteq> []" "samples f \<noteq> []"
    "volume_cells f \<le> capacity"
    by (auto simp: load_success_iff)
  then have "amplitude_statistics (loaded_cube f) \<noteq> None"
    by (simp add: loaded_statistics_None_iff)
  then obtain st where st: "amplitude_statistics (loaded_cube f) = Some st" by auto
  from f(4) have c: "\<not> capacity < volume_cells f" by simp
  from assms have s': "s' = snd (load_segy_file capacity self (Some f))" by (simp add: f(1))
  have "data s' = Some (loaded_cube f)" "amplitude_range s' = Some st"
    "inline_coords s' = Some (inline_axis f)" "xline_coords s' = Some (xline_axis f)"
    "sample_coords s' = Some (samples f)"
    unfolding s' load_opened [OF f(2)] if_not_P [OF c] st by simp_all
  with f st that show thesis by blast
qed


subsection \<open>The example files\<close>

lemma fields_survey_a:
  "samples survey_a = [0, 4]"
  "traces survey_a =
     [\<lparr>header = Some \<lparr>INLINE_3D = Some 1, CROSSLINE_3D = Some 1, CDP_X = Some 0,
                           CDP_Y = Some 0, SourceX = Some 0, SourceY = Some 0\<rparr>,
       trace = Some [Fin 1, NaN]\<rparr>]"
  "traces survey_a \<noteq> []"
  by (simp_all add: survey_a_def)

lemma resolved_survey_a: "resolved survey_a = [(1, 1, 0, 0)]"
  by (simp add: resolved_def survey_a_def read_headers_def locate_def resolve_coords_def)

lemma axes_survey_a: "inline_axis survey_a = [1]" "xline_axis survey_a = [1]"
  by (simp_all add: inline_axis_def xline_axis_def resolved_survey_a unique_sorted_def)

lemma cells_survey_a: "volume_cells survey_a = 2"
  by (simp add: volume_cells_def axes_survey_a fields_survey_a(1))

lemma loaded_cube_survey_a: "loaded_cube survey_a = [[[Fin 1, Fin 0]]]"
  by (simp add: loaded_cube_def axes_survey_a resolved_survey_a assemble_cube_def
      loop_traces_def build_cube_def place_trace_def index_map_def assign_trace_def
      np_zeros_def shape0_def shape1_def shape2_def numeral_2_eq_2 fields_survey_a(1,2))

lemma load_survey_a:
  "load_segy_file 100 self (Some survey_a) =
     (True, self\<lparr>sample_coords := Some [0, 4], inline_coords := Some [1],
                  xline_coords := Some [1], data := Some [[[Fin 1, Fin 0]]],
                  inline_range := Some [1], xline_range := Some [1],
                  sample_range := Some [0, 4],
                  geometry := Some (loaded_geometry survey_a),
                  amplitude_range := amplitude_statistics [[[Fin 1, Fin 0]]],
                  current_inline_idx := 0, current_xline_idx := 0, current_sample_idx := 1\<rparr>)"
proof -
  have "amplitude_statistics (loaded_cube survey_a) \<noteq> None"
    by (simp add: loaded_statistics_None_iff fields_survey_a)
  then obtain st where st: "amplitude_statistics [[[Fin 1, Fin 0]]] = Some st"
    by (auto simp: loaded_cube_survey_a)
  show ?thesis
    by (simp add: load_opened [OF fields_survey_a(3)] cells_survey_a loaded_cube_survey_a
        axes_survey_a fields_survey_a(1) st)
qed

lemma loaded_survey_a:
  "load_segy_file 100 init (Some survey_a) = (True, snd (load_segy_file 100 init (Some survey_a)))"
  "data (snd (load_segy_file 100 init (Some survey_a))) = Some [[[Fin 1, Fin 0]]]"
  "inline_coords (snd (load_segy_file 100 init (Some survey_a))) = Some [1]"
  "xline_coords (snd (load_segy_file 100 init (Some survey_a))) = Some [1]"
  "sample_coords (snd (load_segy_file 100 init (Some survey_a))) = Some [0, 4]"
  by (simp_all add: load_survey_a)

lemma fields_survey_nosamples:
  "samples survey_nosamples = []"
  "traces survey_nosamples =
     [\<lparr>header = Some \<lparr>INLINE_3D = Some 5, CROSSLINE_3D = Some 6, CDP_X = Some 0,
                           CDP_Y = Some 0, SourceX = Some 0, SourceY = Some 0\<rparr>,
       trace = Some []\<rparr>]"
  "traces survey_nosamples \<noteq> []"
  by (simp_all add: survey_nosamples_def)

lemma resolved_survey_nosamples: "resolved survey_nosamples = [(5, 6, 0, 0)]"
  by (simp add: resolved_def survey_nosamples_def read_headers_def locate_def resolve_coords_def)

lemma axes_survey_nosamples:
  "inline_axis survey_nosamples = [5]" "xline_axis survey_nosamples = [6]"
  by (simp_all add: inline_axis_def xline_axis_def resolved_survey_nosamples unique_sorted_def)

lemma loaded_cube_survey_nosamples: "loaded_cube survey_nosamples = [[[]]]"
  by (simp add: loaded_cube_def axes_survey_nosamples resolved_survey_nosamples assemble_cube_def
      loop_traces_def build_cube_def place_trace_def index_map_def assign_trace_def
      np_zeros_def shape0_def shape1_def shape2_def fields_survey_nosamples(1,2))

lemma load_survey_nosamples:
  "load_segy_file capacity self (Some survey_nosamples) =
     (False, self\<lparr>sample_coords := Some [], inline_coords := Some [5],
                   xline_coords := Some [6], data := Some [[[]]],
                   inline_range := Some [5], xline_range := Some [6],
                   sample_range := Some [],
                   geometry := Some (loaded_geometry survey_nosamples)\<rparr>)"
  by (simp add: load_no_samples [OF fields_survey_nosamples(3,1)] axes_survey_nosamples
      loaded_cube_survey_nosamples)

section \<open>The processor after a failed run\<close>




text \<open>
  A run on a file with traces but an empty sample axis fails at the statistics, after
  the volume, the axes and the geometry of the file have been stored.
\<close>

lemma failed_load_exposes_volume:
  assumes "traces f \<noteq> []" and "samples f = []"
  shows "\<not> fst (load_segy_file capacity self (Some f)) \<and>
         data (snd (load_segy_file capacity self (Some f))) = Some (loaded_cube f)"
  by (simp add: load_no_samples [OF assms])

section \<open>The route \<^verbatim>\<open>get_slice\<close>: properties\<close>

lemma max_index_axis_length: "max_index d slice_type = int (axis_length d slice_type) - 1"
  by (simp add: max_index_def axis_length_def)

text \<open>
  Claim C4 as stated fails, twice. A first run on a file of one trace with an empty
  sample axis fails, yet it leaves a volume in the processor: the requests that follow,
  made before any successful ingestion, are answered with the failed-slice reply (500)
  and with the out-of-bounds reply, not with the no-cube reply. And a request with
  index -1 is not answered with the out-of-bounds reply: it does not match the route
  and gets the 404 reply.
\<close>

theorem slice_before_success_not_unloaded:
  "\<not> fst (load_segy_file 100 init (Some survey_nosamples)) \<and>
   slice_endpoint (snd (load_segy_file 100 init (Some survey_nosamples))) ''inline'' 0 =
     Inl FailedToGetSlice \<and>
   slice_endpoint (snd (load_segy_file 100 init (Some survey_nosamples))) ''sample'' 0 =
     Inl (IndexOutOfBounds 0 (- 1)) \<and>
   fst (load_segy_file 100 init (Some survey_a)) \<and>
   slice_endpoint (snd (load_segy_file 100 init (Some survey_a))) ''inline'' (- 1) =
     Inl EndpointNotFound"
proof -
  let ?s = "snd (load_segy_file 100 init (Some survey_nosamples))"
  have fail: "\<not> fst (load_segy_file 100 init (Some survey_nosamples))"
    by (simp add: load_survey_nosamples)
  have d: "data ?s = Some [[[]]]" and xc: "xline_coords ?s = Some [6]"
    and sc: "sample_coords ?s = Some []"
    by (simp_all add: load_survey_nosamples)
  have g: "get_slice_data ?s ''inline'' 0 = None"
    unfolding get_slice_data_def d xc sc
    by (simp add: np_index_def shape0_def shape2_def slice_reply_def transpose_2d_def np_min_def)
  have a: "slice_endpoint ?s ''inline'' 0 = Inl FailedToGetSlice"
    unfolding slice_endpoint_def get_slice_def d g
    by (simp add: max_index_def shape0_def)
  have b: "slice_endpoint ?s ''sample'' 0 = Inl (IndexOutOfBounds 0 (- 1))"
    unfolding slice_endpoint_def get_slice_def d
    by (simp add: max_index_def shape2_def)
  have ok: "fst (load_segy_file 100 init (Some survey_a))"
    by (simp add: load_survey_a)
  have c: "slice_endpoint (snd (load_segy_file 100 init (Some survey_a))) ''inline'' (- 1) =
     Inl EndpointNotFound"
    by (simp add: slice_endpoint_def)
  show ?thesis by (intro conjI fail a b ok c)
qed

text \<open>
  Claim C4, as the code has it. For a slice type of the route: a request with a negative
  index gets the 404 reply; a request with a non-negative index on a processor that
  holds a volume is answered with the out-of-bounds reply exactly when the index is
  above the length of the requested axis minus one (so at the axis length); and on a
  processor that holds no volume, as the one just created does, it is answered with
  the no-cube reply. All are error replies: no slice is returned.
\<close>

theorem slice_request_errors:
  assumes "slice_type \<in> set [''inline'', ''xline'', ''sample'']"
  shows "(index < 0 \<longrightarrow> slice_endpoint self slice_type index = Inl EndpointNotFound) \<and>
         (0 \<le> index \<and> data self = None \<longrightarrow>
            slice_endpoint self slice_type index = Inl NoCubeLoaded) \<and>
         (0 \<le> index \<longrightarrow> slice_endpoint init slice_type index = Inl NoCubeLoaded) \<and>
         (\<forall>d. 0 \<le> index \<and> data self = Some d \<longrightarrow>
            (is_range_error (slice_endpoint self slice_type index) \<longleftrightarrow>
               int (axis_length d slice_type) - 1 < index) \<and>
            (int (axis_length d slice_type) - 1 < index \<longrightarrow>
               slice_endpoint self slice_type index =
                 Inl (IndexOutOfBounds index (int (axis_length d slice_type) - 1)))) \<and>
         (\<forall>d. data self = Some d \<longrightarrow>
            slice_endpoint self slice_type (int (axis_length d slice_type)) =
              Inl (IndexOutOfBounds (int (axis_length d slice_type))
                     (int (axis_length d slice_type) - 1)))"
proof -
  have ok: "\<not> slice_type \<notin> set [''inline'', ''xline'', ''sample'']"
    using assms by simp
  have neg: "slice_endpoint self slice_type index = Inl EndpointNotFound" if "index < 0"
    using that by (simp add: slice_endpoint_def)
  have none: "slice_endpoint s slice_type index = Inl NoCubeLoaded"
    if "0 \<le> index" "data s = None" for s
    using that ok unfolding slice_endpoint_def get_slice_def by simp
  have some: "slice_endpoint self slice_type i =
      (if int (axis_length d slice_type) - 1 < i
       then Inl (IndexOutOfBounds i (int (axis_length d slice_type) - 1))
       else (case get_slice_data self slice_type i of
               None \<Rightarrow> Inl FailedToGetSlice
             | Some slice_data \<Rightarrow> Inr slice_data))"
    if "0 \<le> i" "data self = Some d" for d i
    using that ok unfolding slice_endpoint_def get_slice_def max_index_axis_length by simp
  have iff: "is_range_error (slice_endpoint self slice_type index) \<longleftrightarrow>
               int (axis_length d slice_type) - 1 < index"
    if "0 \<le> index" "data self = Some d" for d
    unfolding some [OF that] is_range_error_def by (simp split: option.splits)
  have out: "slice_endpoint self slice_type index =
                 Inl (IndexOutOfBounds index (int (axis_length d slice_type) - 1))"
    if "0 \<le> index" "data self = Some d" "int (axis_length d slice_type) - 1 < index" for d
    unfolding some [OF that(1,2)] using that(3) by simp
  have len: "slice_endpoint self slice_type (int (axis_length d slice_type)) =
              Inl (IndexOutOfBounds (int (axis_length d slice_type))
                     (int (axis_length d slice_type) - 1))"
    if "data self = Some d" for d
    using some [of "int (axis_length d slice_type)" d] that by simp
  have "data init = None" by (simp add: init_def)
  then have fresh: "slice_endpoint init slice_type index = Inl NoCubeLoaded" if "0 \<le> index"
    using that none by blast
  show ?thesis
    using neg none [of self] fresh iff out len by blast
qed

text \<open>A processor holding a zero volume of shape (2, 3, 4): crossline index 3 is out of
  bounds, index -1 is not routed; the fresh processor has no cube.\<close>

theorem slice_request_errors_witness:
  "''xline'' \<in> set [''inline'', ''xline'', ''sample''] \<and>
   data init = None \<and> (0::int) \<le> 3 \<and> (- 1::int) < 0 \<and>
   data (init\<lparr>data := Some (np_zeros 2 3 4)\<rparr>) = Some (np_zeros 2 3 4) \<and>
   int (axis_length (np_zeros 2 3 4) ''xline'') - 1 < (3::int) \<and>
   slice_endpoint init ''xline'' 3 = Inl NoCubeLoaded \<and>
   is_range_error (slice_endpoint (init\<lparr>data := Some (np_zeros 2 3 4)\<rparr>) ''xline'' 3) \<and>
   slice_endpoint (init\<lparr>data := Some (np_zeros 2 3 4)\<rparr>) ''xline'' 3 =
     Inl (IndexOutOfBounds 3 2) \<and>
   slice_endpoint (init\<lparr>data := Some (np_zeros 2 3 4)\<rparr>) ''xline'' (- 1) =
     Inl EndpointNotFound"
proof -
  let ?s = "init\<lparr>data := Some (np_zeros 2 3 4)\<rparr>"
  have t: "''xline'' \<in> set [''inline'', ''xline'', ''sample'']" by simp
  have n: "data init = None" by (simp add: init_def)
  have p: "(0::int) \<le> 3" and q: "(- 1::int) < 0" by simp_all
  have d: "data ?s = Some (np_zeros 2 3 4)" by simp
  have l: "int (axis_length (np_zeros 2 3 4) ''xline'') - 1 = 2"
    by (simp add: axis_length_def shape1_def np_zeros_def numeral_2_eq_2)
  have o: "int (axis_length (np_zeros 2 3 4) ''xline'') - 1 < (3::int)"
    by (simp add: l)
  note r3 = slice_request_errors [OF t, of 3 ?s]
  note rn = slice_request_errors [OF t, of "- 1" ?s]
  have fresh: "slice_endpoint init ''xline'' 3 = Inl NoCubeLoaded"
    by (rule r3 [THEN conjunct2, THEN conjunct2, THEN conjunct1, rule_format, OF p])
  note some = r3 [THEN conjunct2, THEN conjunct2, THEN conjunct2, THEN conjunct1, rule_format,
      OF conjI [OF p d]]
  have rng: "is_range_error (slice_endpoint ?s ''xline'' 3)"
    using some [THEN conjunct1] o by simp
  have out: "slice_endpoint ?s ''xline'' 3 = Inl (IndexOutOfBounds 3 2)"
    using some [THEN conjunct2, rule_format, OF o] by (simp only: l)
  have neg: "slice_endpoint ?s ''xline'' (- 1) = Inl EndpointNotFound"
    by (rule rn [THEN conjunct1, rule_format, OF q])
  show ?thesis by (intro conjI t n p q d o fresh rng out neg)
qed

section \<open>The processor after a successful load\<close>

lemma axes_pos:
  assumes "traces f \<noteq> []"
  shows "0 < length (inline_axis f)" and "0 < length (xline_axis f)"
  using assms by (simp_all add: axes_Nil)

text \<open>
  Claim C3. After a successful load the processor holds a volume whose shape is the
  lengths of the inline, crossline and sample axes. For an index inside the axis, the
  inline slice has shape (samples, crosslines), coordinate axes (crossline axis,
  sample axis) and entry \<open>(k, j)\<close> equal to cell \<open>(i, j, k)\<close>; the crossline slice has
  shape (samples, inlines), coordinate axes (inline axis, sample axis) and entry
  \<open>(k, i)\<close> equal to cell \<open>(i, j, k)\<close>; the sample slice has shape (inlines,
  crosslines), coordinate axes (inline axis, crossline axis) and entry \<open>(i, j)\<close>
  equal to cell \<open>(i, j, k)\<close>.
\<close>

theorem slice_shapes:
  assumes "load_segy_file capacity self src = (True, s')"
  shows "\<exists>d is xs ss.
     data s' = Some d \<and> inline_coords s' = Some is \<and> xline_coords s' = Some xs \<and>
     sample_coords s' = Some ss \<and> has_shape (length is) (length xs) (length ss) d \<and>
     (\<forall>i<length is. \<exists>res. get_slice_data s' ''inline'' (int i) = Some res \<and>
        has_shape_2d (length ss) (length xs) (slice_values res) \<and>
        coordinates res = (IntAxis xs, FloatAxis ss) \<and>
        (\<forall>k<length ss. \<forall>j<length xs. slice_values res ! k ! j = d ! i ! j ! k)) \<and>
     (\<forall>j<length xs. \<exists>res. get_slice_data s' ''xline'' (int j) = Some res \<and>
        has_shape_2d (length ss) (length is) (slice_values res) \<and>
        coordinates res = (IntAxis is, FloatAxis ss) \<and>
        (\<forall>k<length ss. \<forall>i<length is. slice_values res ! k ! i = d ! i ! j ! k)) \<and>
     (\<forall>k<length ss. \<exists>res. get_slice_data s' ''sample'' (int k) = Some res \<and>
        has_shape_2d (length is) (length xs) (slice_values res) \<and>
        coordinates res = (IntAxis is, IntAxis xs) \<and>
        (\<forall>i<length is. \<forall>j<length xs. slice_values res ! i ! j = d ! i ! j ! k))"
proof -
  from assms obtain f where f: "traces f \<noteq> []" "samples f \<noteq> []"
    and d: "data s' = Some (loaded_cube f)"
    and ic: "inline_coords s' = Some (inline_axis f)"
    and xc: "xline_coords s' = Some (xline_axis f)"
    and sc: "sample_coords s' = Some (samples f)"
    by (rule load_True)
  let ?d = "loaded_cube f" and ?a = "length (inline_axis f)" and ?b = "length (xline_axis f)"
    and ?c = "length (samples f)"
  have sh: "has_shape ?a ?b ?c ?d" by (rule has_shape_loaded_cube)
  have fin: "cube_finite ?d" by (rule cube_finite_loaded_cube)
  have a: "0 < ?a" and b: "0 < ?b" using f(1) by (rule axes_pos)+
  have c: "0 < ?c" using f(2) by simp
  have cell: "nan_to_num (?d ! i ! j ! k) = ?d ! i ! j ! k" if "i < ?a" "j < ?b" "k < ?c" for i j k
    using cube_finite_nth [OF fin sh that] by (rule nan_to_num_finite)
  have inl: "\<exists>res. get_slice_data s' ''inline'' (int i) = Some res \<and>
        has_shape_2d ?c ?b (slice_values res) \<and>
        coordinates res = (IntAxis (xline_axis f), FloatAxis (samples f)) \<and>
        (\<forall>k<?c. \<forall>j<?b. slice_values res ! k ! j = ?d ! i ! j ! k)" if "i < ?a" for i
    using inline_slice [OF d sh b c xc sc that] cell [OF that] by auto
  have xl: "\<exists>res. get_slice_data s' ''xline'' (int j) = Some res \<and>
        has_shape_2d ?c ?a (slice_values res) \<and>
        coordinates res = (IntAxis (inline_axis f), FloatAxis (samples f)) \<and>
        (\<forall>k<?c. \<forall>i<?a. slice_values res ! k ! i = ?d ! i ! j ! k)" if "j < ?b" for j
    using xline_slice [OF d sh a c ic sc that] cell [OF _ that] by auto
  have sm: "\<exists>res. get_slice_data s' ''sample'' (int k) = Some res \<and>
        has_shape_2d ?a ?b (slice_values res) \<and>
        coordinates res = (IntAxis (inline_axis f), IntAxis (xline_axis f)) \<and>
        (\<forall>i<?a. \<forall>j<?b. slice_values res ! i ! j = ?d ! i ! j ! k)" if "k < ?c" for k
    using sample_slice [OF d sh a b ic xc that] cell [OF _ _ that] by auto
  show ?thesis
    by (rule exI [of _ ?d], rule exI [of _ "inline_axis f"], rule exI [of _ "xline_axis f"],
        rule exI [of _ "samples f"]) (intro conjI allI impI d ic xc sc sh inl xl sm)
qed

text \<open>The survey of one trace with two samples: the inline slice at index 0 has shape
  (2, 1) and the coordinate axes (crossline axis, sample axis).\<close>

theorem slice_shapes_witness:
  "load_segy_file 100 init (Some survey_a) = (True, snd (load_segy_file 100 init (Some survey_a))) \<and>
   (0::nat) < length [1::int] \<and>
   (\<exists>res. get_slice_data (snd (load_segy_file 100 init (Some survey_a))) ''inline'' (int 0) = Some res \<and>
      has_shape_2d 2 1 (slice_values res) \<and> coordinates res = (IntAxis [1], FloatAxis [0, 4]))"
proof -
  let ?s = "snd (load_segy_file 100 init (Some survey_a))"
  from slice_shapes [OF loaded_survey_a(1)] obtain d "is" xs ss where
    all: "data ?s = Some d \<and> inline_coords ?s = Some is \<and> xline_coords ?s = Some xs \<and>
     sample_coords ?s = Some ss \<and> has_shape (length is) (length xs) (length ss) d \<and>
     (\<forall>i<length is. \<exists>res. get_slice_data ?s ''inline'' (int i) = Some res \<and>
        has_shape_2d (length ss) (length xs) (slice_values res) \<and>
        coordinates res = (IntAxis xs, FloatAxis ss) \<and>
        (\<forall>k<length ss. \<forall>j<length xs. slice_values res ! k ! j = d ! i ! j ! k)) \<and>
     (\<forall>j<length xs. \<exists>res. get_slice_data ?s ''xline'' (int j) = Some res \<and>
        has_shape_2d (length ss) (length is) (slice_values res) \<and>
        coordinates res = (IntAxis is, FloatAxis ss) \<and>
        (\<forall>k<length ss. \<forall>i<length is. slice_values res ! k ! i = d ! i ! j ! k)) \<and>
     (\<forall>k<length ss. \<exists>res. get_slice_data ?s ''sample'' (int k) = Some res \<and>
        has_shape_2d (length is) (length xs) (slice_values res) \<and>
        coordinates res = (IntAxis is, IntAxis xs) \<and>
        (\<forall>i<length is. \<forall>j<length xs. slice_values res ! i ! j = d ! i ! j ! k))"
    by (elim exE) (rule that)
  note c = all [THEN conjunct2, THEN conjunct1]
    all [THEN conjunct2, THEN conjunct2, THEN conjunct1]
    all [THEN conjunct2, THEN conjunct2, THEN conjunct2, THEN conjunct1]
  note inl = all [THEN conjunct2, THEN conjunct2, THEN conjunct2, THEN conjunct2,
    THEN conjunct2, THEN conjunct1, rule_format]
  from c have e: "is = [1]" "xs = [1]" "ss = [0, 4]"
    by (simp_all add: loaded_survey_a(3,4,5))
  have "(0::nat) < length is" by (simp add: e)
  from inl [OF this] obtain res where r: "get_slice_data ?s ''inline'' (int 0) = Some res \<and>
        has_shape_2d (length ss) (length xs) (slice_values res) \<and>
        coordinates res = (IntAxis xs, FloatAxis ss) \<and>
        (\<forall>k<length ss. \<forall>j<length xs. slice_values res ! k ! j = d ! 0 ! j ! k)"
    by (elim exE) (rule that)
  have "get_slice_data ?s ''inline'' (int 0) = Some res \<and>
      has_shape_2d 2 1 (slice_values res) \<and> coordinates res = (IntAxis [1], FloatAxis [0, 4])"
    using r [THEN conjunct1] r [THEN conjunct2, THEN conjunct1]
      r [THEN conjunct2, THEN conjunct2, THEN conjunct1]
    by (simp add: e numeral_2_eq_2)
  then have "\<exists>res. get_slice_data ?s ''inline'' (int 0) = Some res \<and>
      has_shape_2d 2 1 (slice_values res) \<and> coordinates res = (IntAxis [1], FloatAxis [0, 4])"
    by (rule exI)
  with loaded_survey_a(1) show ?thesis by simp
qed

text \<open>
  Claim C5. After a successful load every stored amplitude is finite, the volume equals
  its sanitized copy, every statistic of the volume is finite, and every slice the
  processor returns has finite entries and finite minimum, maximum, mean and standard
  deviation.
\<close>

theorem stored_values_finite:
  assumes "load_segy_file capacity self src = (True, s')"
  shows "\<exists>d st. data s' = Some d \<and> cube_finite d \<and> clean_cube d = d \<and>
           amplitude_range s' = Some st \<and> stats_finite st \<and>
           (\<forall>slice_type idx res.
              get_slice_data s' slice_type idx = Some res \<longrightarrow> slice_finite res)"
proof -
  from assms obtain f st where f: "traces f \<noteq> []"
    and st: "amplitude_statistics (loaded_cube f) = Some st"
    and d: "data s' = Some (loaded_cube f)" and ar: "amplitude_range s' = Some st"
    by (rule load_True)
  have fin: "cube_finite (loaded_cube f)" by (rule cube_finite_loaded_cube)
  have cl: "clean_cube (loaded_cube f) = loaded_cube f"
    using fin by (rule clean_cube_finite)
  have sf: "stats_finite st" using st by (rule stats_finite_statistics)
  have sl: "slice_finite res" if "get_slice_data s' slice_type idx = Some res"
    for slice_type idx res
    using d has_shape_loaded_cube axes_pos [OF f] that by (rule get_slice_data_finite)
  show ?thesis
    by (rule exI [of _ "loaded_cube f"], rule exI [of _ st])
      (intro conjI allI impI d fin cl ar sf sl)
qed


text \<open>The survey of one trace with samples 1 and NaN: the stored trace is 1, 0, and the
  statistics and the inline slice are finite.\<close>

theorem stored_values_finite_witness:
  "load_segy_file 100 init (Some survey_a) = (True, snd (load_segy_file 100 init (Some survey_a))) \<and>
   data (snd (load_segy_file 100 init (Some survey_a))) = Some [[[Fin 1, Fin 0]]] \<and>
   cube_finite [[[Fin 1, Fin 0]]] \<and>
   (\<exists>st. amplitude_range (snd (load_segy_file 100 init (Some survey_a))) = Some st \<and> stats_finite st) \<and>
   (\<exists>res. get_slice_data (snd (load_segy_file 100 init (Some survey_a))) ''inline'' (int 0) = Some res \<and>
      slice_finite res)"
proof -
  let ?s = "snd (load_segy_file 100 init (Some survey_a))"
  from stored_values_finite [OF loaded_survey_a(1)] obtain d st where
    all: "data ?s = Some d \<and> cube_finite d \<and> clean_cube d = d \<and>
           amplitude_range ?s = Some st \<and> stats_finite st \<and>
           (\<forall>slice_type idx res.
              get_slice_data ?s slice_type idx = Some res \<longrightarrow> slice_finite res)"
    by (elim exE) (rule that)
  note d = all [THEN conjunct1] all [THEN conjunct2, THEN conjunct1]
  note st = all [THEN conjunct2, THEN conjunct2, THEN conjunct2, THEN conjunct1]
    all [THEN conjunct2, THEN conjunct2, THEN conjunct2, THEN conjunct2, THEN conjunct1]
  note sl = all [THEN conjunct2, THEN conjunct2, THEN conjunct2, THEN conjunct2,
    THEN conjunct2, rule_format]
  from d(1) have e: "d = [[[Fin 1, Fin 0]]]" by (simp add: loaded_survey_a(2))
  have sh: "has_shape 1 1 2 [[[Fin 1, Fin 0]]]" by (simp add: has_shape_def)
  from inline_slice [OF loaded_survey_a(2) sh _ _ loaded_survey_a(4,5), of 0]
  obtain res where g: "get_slice_data ?s ''inline'' (int 0) = Some res" by auto
  from g sl [OF g] have "get_slice_data ?s ''inline'' (int 0) = Some res \<and> slice_finite res" ..
  then have x: "\<exists>res. get_slice_data ?s ''inline'' (int 0) = Some res \<and> slice_finite res"
    by (rule exI)
  from st have "amplitude_range ?s = Some st \<and> stats_finite st" ..
  then have y: "\<exists>st. amplitude_range ?s = Some st \<and> stats_finite st" by (rule exI)
  from d(2) have f: "cube_finite [[[Fin 1, Fin 0]]]" unfolding e .
  show ?thesis by (intro conjI loaded_survey_a(1,2) f x y)
qed

section \<open>The assembled volume of a file\<close>

lemma index_map_Some:
  assumes "index_map us v = Some i"
  shows "i < length us" and "us ! i = v"
proof -
  from assms have "(v, i) \<in> set (zip us [0..<length us])"
    by (auto simp: index_map_def dest: map_of_SomeD)
  then obtain k where "k < length us" "us ! k = v" "[0..<length us] ! k = i"
    by (auto simp: set_zip)
  then show "i < length us" and "us ! i = v" by auto
qed

lemma index_map_dom:
  assumes "v \<in> set us"
  shows "\<exists>i. index_map us v = Some i"
proof -
  have "map fst (zip us [0..<length us]) = us" by simp
  then have "fst ` set (rev (zip us [0..<length us])) = set us"
    by (metis set_map set_rev)
  with assms have "index_map us v \<noteq> None"
    unfolding index_map_def by (simp only: map_of_eq_None_iff not_not)
  then show ?thesis by auto
qed

lemma placement_projections:
  "(\<lambda>(il, xl, x, y). il) = (fst :: int \<times> int \<times> int \<times> int \<Rightarrow> int)"
  "(\<lambda>(il, xl, x, y). xl) = (\<lambda>p :: int \<times> int \<times> int \<times> int. fst (snd p))"
  by (auto simp: fun_eq_iff)

lemma loop_traces_resolved:
  "loop_traces (length (traces f)) (map (\<lambda>(il, xl, x, y). il) (resolved f))
     (map (\<lambda>(il, xl, x, y). xl) (resolved f)) (traces f) =
   map (\<lambda>k. (fst (resolved f ! k), fst (snd (resolved f ! k)), trace (traces f ! k)))
     [0..<length (traces f)]"
  by (rule nth_equalityI)
    (auto simp: loop_traces_def length_resolved split: prod.splits)

text \<open>
  The volume \<^verbatim>\<open>load_segy_file\<close> assembles: every trace of the file resolves to a cell of
  the volume, and a readable trace with as many samples as the sample axis, after which
  no trace has the same inline and crossline, leaves its sanitized samples in its cell.
\<close>

lemma loaded_cube_cell:
  assumes k: "k < length (traces f)" and v: "trace (traces f ! k) = Some v"
    and len: "length v = length (samples f)"
    and later: "\<forall>m. k < m \<and> m < length (traces f) \<longrightarrow>
      (fst (resolved f ! m), fst (snd (resolved f ! m))) \<noteq>
      (fst (resolved f ! k), fst (snd (resolved f ! k)))"
  shows "\<exists>i j. index_map (inline_axis f) (fst (resolved f ! k)) = Some i \<and>
           index_map (xline_axis f) (fst (snd (resolved f ! k))) = Some j \<and>
           i < length (inline_axis f) \<and> j < length (xline_axis f) \<and>
           loaded_cube f ! i ! j = map nan_to_num v"
proof -
  let ?il = "fst (resolved f ! k)" and ?xl = "fst (snd (resolved f ! k))"
  let ?im = "index_map (inline_axis f)" and ?xm = "index_map (xline_axis f)"
  let ?ts = "map (\<lambda>k. (fst (resolved f ! k), fst (snd (resolved f ! k)), trace (traces f ! k)))
     [0..<length (traces f)]"
  have kr: "k < length (resolved f)" using k by (simp add: length_resolved)
  have "?il \<in> set (map (\<lambda>(il, xl, x, y). il) (resolved f))"
    using kr unfolding placement_projections by (simp only: set_map) (rule imageI, rule nth_mem)
  then have "?il \<in> set (inline_axis f)" by (simp add: inline_axis_def unique_sorted_def)
  then obtain i where i: "?im ?il = Some i" using index_map_dom by blast
  have "resolved f ! k \<in> set (resolved f)" using kr by (rule nth_mem)
  then have "?xl \<in> set (map (\<lambda>(il, xl, x, y). xl) (resolved f))"
    unfolding placement_projections by (simp only: set_map) (rule imageI)
  then have "?xl \<in> set (xline_axis f)" by (simp add: xline_axis_def unique_sorted_def)
  then obtain j where j: "?xm ?xl = Some j" using index_map_dom by blast
  note ib = index_map_Some [OF i] and jb = index_map_Some [OF j]
  have kt: "k < length ?ts" using k by simp
  have tk: "?ts ! k = (?il, ?xl, Some v)" using k v by simp
  have lt: "\<forall>m. k < m \<and> m < length ?ts \<longrightarrow> \<not> resolves_to ?im ?xm i j (?ts ! m)"
  proof (intro allI impI notI)
    fix m assume m: "k < m \<and> m < length ?ts" and r: "resolves_to ?im ?xm i j (?ts ! m)"
    from m have ml: "m < length (traces f)" by simp
    with r have "?im (fst (resolved f ! m)) = Some i" "?xm (fst (snd (resolved f ! m))) = Some j"
      by (simp_all add: resolves_to_def)
    then have "fst (resolved f ! m) = inline_axis f ! i" "fst (snd (resolved f ! m)) = xline_axis f ! j"
      by (simp_all add: index_map_Some(2))
    with ib(2) jb(2) have "(fst (resolved f ! m), fst (snd (resolved f ! m))) = (?il, ?xl)"
      by simp
    with later m ml show False by blast
  qed
  have "build_cube ?im ?xm
      (np_zeros (length (inline_axis f)) (length (xline_axis f)) (length (samples f))) ?ts ! i ! j =
      map nan_to_num v"
    using has_shape_np_zeros kt tk len i j ib(1) jb(1) lt by (rule build_cube_last_writer)
  then have "loaded_cube f ! i ! j = map nan_to_num v"
    by (simp only: loaded_cube_def assemble_cube_def loop_traces_resolved)
  with i j ib(1) jb(1) show ?thesis by blast
qed

lemma fields_survey_b:
  "samples survey_b = [0, 4]"
  "traces survey_b =
     [\<lparr>header = Some \<lparr>INLINE_3D = Some 7, CROSSLINE_3D = Some 3, CDP_X = Some 0,
                           CDP_Y = Some 0, SourceX = Some 0, SourceY = Some 0\<rparr>,
       trace = Some [Fin 1, NaN]\<rparr>,
      \<lparr>header = Some \<lparr>INLINE_3D = Some 7, CROSSLINE_3D = Some 3, CDP_X = Some 0,
                           CDP_Y = Some 0, SourceX = Some 0, SourceY = Some 0\<rparr>,
       trace = Some [PInf, Fin 2]\<rparr>]"
  "traces survey_b \<noteq> []"
  "length (traces survey_b) = 2"
  "trace (traces survey_b ! 1) = Some [PInf, Fin 2]"
  by (simp_all add: survey_b_def)

lemma resolved_survey_b: "resolved survey_b = [(7, 3, 0, 0), (7, 3, 0, 0)]"
  by (simp add: resolved_def survey_b_def read_headers_def locate_def resolve_coords_def
      numeral_2_eq_2)

lemma axes_survey_b: "inline_axis survey_b = [7]" "xline_axis survey_b = [3]"
  by (simp_all add: inline_axis_def xline_axis_def resolved_survey_b unique_sorted_def)

lemma cells_survey_b: "volume_cells survey_b = 2"
  by (simp add: volume_cells_def axes_survey_b fields_survey_b(1))

lemma load_survey_b:
  "load_segy_file 100 init (Some survey_b) = (True, snd (load_segy_file 100 init (Some survey_b)))"
proof -
  have "fst (load_segy_file 100 init (Some survey_b))"
    unfolding load_success_iff
    by (rule exI [of _ survey_b]) (simp add: fields_survey_b(1,3) cells_survey_b)
  then show ?thesis by (simp add: prod_eq_iff)
qed

text \<open>
  Claim C1. The assembly loop, started on a volume of shape \<open>(a, b, c)\<close> with any two
  lookup tables, returns a volume of that shape. A trace with \<open>c\<close> samples whose
  inline and crossline are in the tables (at indices inside the volume) and after which
  no trace resolves to the same cell leaves its cell equal to its sample vector with
  every non-finite entry replaced by 0: the last trace written to a cell wins. A trace
  whose inline or crossline is in neither table changes nothing. And for
  \<^verbatim>\<open>load_segy_file\<close> itself: after a successful run on a file, the processor holds the
  volume assembled from the placements of the header loop, of the shape of the three
  axes; the inline and the crossline of every trace are found in the lookup tables of
  the inline and crossline axes, at the positions of these values on the axes; and the
  cell of a readable trace with as many samples as the sample axis, after which no trace
  has the same inline and crossline, holds its sanitized sample vector.
\<close>

theorem cube_assembly:
  assumes "has_shape a b c d0"
  shows "has_shape a b c (build_cube inline_map xline_map d0 ts) \<and>
    (k < length ts \<and> ts ! k = (il, xl, Some v) \<and> length v = c \<and>
     inline_map il = Some i \<and> xline_map xl = Some j \<and> i < a \<and> j < b \<and>
     (\<forall>m. k < m \<and> m < length ts \<longrightarrow> \<not> resolves_to inline_map xline_map i j (ts ! m)) \<longrightarrow>
       build_cube inline_map xline_map d0 ts ! i ! j = map nan_to_num v) \<and>
    (inline_map il' = None \<or> xline_map xl' = None \<longrightarrow>
       build_cube inline_map xline_map d0 (ts1 @ (il', xl', tr) # ts2) =
       build_cube inline_map xline_map d0 (ts1 @ ts2)) \<and>
    (load_segy_file capacity self (Some f) = (True, s') \<and> n < length (traces f) \<and>
     trace (traces f ! n) = Some w \<and> length w = length (samples f) \<and>
     (\<forall>m. n < m \<and> m < length (traces f) \<longrightarrow>
        (fst (resolved f ! m), fst (snd (resolved f ! m))) \<noteq>
        (fst (resolved f ! n), fst (snd (resolved f ! n)))) \<longrightarrow>
       read_headers (length (traces f)) (map header (traces f)) = Some (resolved f) \<and>
       data s' = Some (loaded_cube f) \<and>
       inline_coords s' = Some (inline_axis f) \<and> xline_coords s' = Some (xline_axis f) \<and>
       has_shape (length (inline_axis f)) (length (xline_axis f)) (length (samples f))
         (loaded_cube f) \<and>
       (\<exists>p q. index_map (inline_axis f) (fst (resolved f ! n)) = Some p \<and>
              index_map (xline_axis f) (fst (snd (resolved f ! n))) = Some q \<and>
              p < length (inline_axis f) \<and> q < length (xline_axis f) \<and>
              inline_axis f ! p = fst (resolved f ! n) \<and>
              xline_axis f ! q = fst (snd (resolved f ! n)) \<and>
              loaded_cube f ! p ! q = map nan_to_num w))"
proof (intro conjI impI)
  show "has_shape a b c (build_cube inline_map xline_map d0 ts)"
    using assms by (rule build_cube_preserves(1))
next
  assume "k < length ts \<and> ts ! k = (il, xl, Some v) \<and> length v = c \<and>
     inline_map il = Some i \<and> xline_map xl = Some j \<and> i < a \<and> j < b \<and>
     (\<forall>m. k < m \<and> m < length ts \<longrightarrow> \<not> resolves_to inline_map xline_map i j (ts ! m))"
  with assms show "build_cube inline_map xline_map d0 ts ! i ! j = map nan_to_num v"
    by (intro build_cube_last_writer [of a b c d0 k ts il xl v]) simp_all
next
  assume "inline_map il' = None \<or> xline_map xl' = None"
  then show "build_cube inline_map xline_map d0 (ts1 @ (il', xl', tr) # ts2) =
       build_cube inline_map xline_map d0 (ts1 @ ts2)"
    by (simp only: build_cube_append build_cube_Cons place_trace_skip)
next
  assume h: "load_segy_file capacity self (Some f) = (True, s') \<and> n < length (traces f) \<and>
     trace (traces f ! n) = Some w \<and> length w = length (samples f) \<and>
     (\<forall>m. n < m \<and> m < length (traces f) \<longrightarrow>
        (fst (resolved f ! m), fst (snd (resolved f ! m))) \<noteq>
        (fst (resolved f ! n), fst (snd (resolved f ! n))))"
  note ld = h [THEN conjunct1] and n = h [THEN conjunct2, THEN conjunct1]
    and w = h [THEN conjunct2, THEN conjunct2, THEN conjunct1]
    and len = h [THEN conjunct2, THEN conjunct2, THEN conjunct2, THEN conjunct1]
    and later = h [THEN conjunct2, THEN conjunct2, THEN conjunct2, THEN conjunct2]
  from ld obtain g where g: "Some f = Some g" and dg: "data s' = Some (loaded_cube g)"
    and ig: "inline_coords s' = Some (inline_axis g)"
    and xg: "xline_coords s' = Some (xline_axis g)"
    by (rule load_True)
  from g have e: "g = f" by simp
  from loaded_cube_cell [OF n w len later] obtain p q where
    pq: "index_map (inline_axis f) (fst (resolved f ! n)) = Some p \<and>
           index_map (xline_axis f) (fst (snd (resolved f ! n))) = Some q \<and>
           p < length (inline_axis f) \<and> q < length (xline_axis f) \<and>
           loaded_cube f ! p ! q = map nan_to_num w"
    by (elim exE) (rule that)
  note ip = index_map_Some(2) [OF pq [THEN conjunct1]]
    and iq = index_map_Some(2) [OF pq [THEN conjunct2, THEN conjunct1]]
  show "read_headers (length (traces f)) (map header (traces f)) = Some (resolved f)"
    by (rule read_headers_traces)
  show "data s' = Some (loaded_cube f)" using dg unfolding e .
  show "inline_coords s' = Some (inline_axis f)" using ig unfolding e .
  show "xline_coords s' = Some (xline_axis f)" using xg unfolding e .
  show "has_shape (length (inline_axis f)) (length (xline_axis f)) (length (samples f))
         (loaded_cube f)"
    by (rule has_shape_loaded_cube)
  show "\<exists>p q. index_map (inline_axis f) (fst (resolved f ! n)) = Some p \<and>
              index_map (xline_axis f) (fst (snd (resolved f ! n))) = Some q \<and>
              p < length (inline_axis f) \<and> q < length (xline_axis f) \<and>
              inline_axis f ! p = fst (resolved f ! n) \<and>
              xline_axis f ! q = fst (snd (resolved f ! n)) \<and>
              loaded_cube f ! p ! q = map nan_to_num w"
    by (rule exI [of _ p], rule exI [of _ q])
      (intro conjI pq [THEN conjunct1] pq [THEN conjunct2, THEN conjunct1]
        pq [THEN conjunct2, THEN conjunct2, THEN conjunct1]
        pq [THEN conjunct2, THEN conjunct2, THEN conjunct2, THEN conjunct1]
        pq [THEN conjunct2, THEN conjunct2, THEN conjunct2, THEN conjunct2] ip iq)
qed

text \<open>
  Two traces at inline 7, crossline 3 and one at the unknown inline 9: the cell holds
  the sanitized samples of the second trace, and the third trace is skipped. And the
  file of two traces at inline 7, crossline 3: after the run the only cell of the volume
  of the processor holds the sanitized samples of the second trace.
\<close>

theorem cube_assembly_witness:
  "has_shape 1 2 2 (np_zeros 1 2 2) \<and>
   (1::nat) < length [(7, 3, Some [Fin 1, NaN]), (7, 3, Some [PInf, Fin 2]), (9::int, 3::int, Some [Fin 5, Fin 5])] \<and>
   index_map [7] 7 = Some 0 \<and> index_map [3, 4] 3 = Some 0 \<and> index_map [7] 9 = None \<and>
   build_cube (index_map [7]) (index_map [3, 4]) (np_zeros 1 2 2)
     [(7, 3, Some [Fin 1, NaN]), (7, 3, Some [PInf, Fin 2]), (9, 3, Some [Fin 5, Fin 5])] ! 0 ! 0 =
     [Fin 0, Fin 2] \<and>
   build_cube (index_map [7]) (index_map [3, 4]) (np_zeros 1 2 2)
     ([(7, 3, Some [Fin 1, NaN]), (7, 3, Some [PInf, Fin 2])] @ (9, 3, Some [Fin 5, Fin 5]) # []) =
   build_cube (index_map [7]) (index_map [3, 4]) (np_zeros 1 2 2)
     ([(7, 3, Some [Fin 1, NaN]), (7, 3, Some [PInf, Fin 2])] @ []) \<and>
   load_segy_file 100 init (Some survey_b) = (True, snd (load_segy_file 100 init (Some survey_b))) \<and>
   (1::nat) < length (traces survey_b) \<and> trace (traces survey_b ! 1) = Some [PInf, Fin 2] \<and>
   length [PInf, Fin 2] = length (samples survey_b) \<and>
   inline_coords (snd (load_segy_file 100 init (Some survey_b))) = Some [7] \<and>
   xline_coords (snd (load_segy_file 100 init (Some survey_b))) = Some [3] \<and>
   (\<exists>d. data (snd (load_segy_file 100 init (Some survey_b))) = Some d \<and>
        has_shape 1 1 2 d \<and> d ! 0 ! 0 = [Fin 0, Fin 2])"
proof -
  let ?ts = "[(7, 3, Some [Fin 1, NaN]), (7, 3, Some [PInf, Fin 2]), (9::int, 3::int, Some [Fin 5, Fin 5])]"
  let ?s = "snd (load_segy_file 100 init (Some survey_b))"
  have s: "has_shape 1 2 2 (np_zeros 1 2 2)" by (rule has_shape_np_zeros)
  have k: "(1::nat) < length ?ts" by simp
  have m7: "index_map [7] 7 = Some 0" and m3: "index_map [3, 4] 3 = Some 0"
    and m9: "index_map [7] 9 = None"
    by (simp_all add: index_map_def)
  have later: "\<forall>m. 1 < m \<and> m < length ?ts \<longrightarrow>
      \<not> resolves_to (index_map [7]) (index_map [3, 4]) 0 0 (?ts ! m)"
  proof (intro allI impI)
    fix m :: nat assume "1 < m \<and> m < length ?ts"
    then have "m = 2" by simp
    then show "\<not> resolves_to (index_map [7]) (index_map [3, 4]) 0 0 (?ts ! m)"
      by (simp add: resolves_to_def m9)
  qed
  have hyp: "1 < length ?ts \<and> ?ts ! 1 = (7, 3, Some [PInf, Fin 2]) \<and> length [PInf, Fin 2] = 2 \<and>
     index_map [7] 7 = Some 0 \<and> index_map [3, 4] 3 = Some 0 \<and> (0::nat) < 1 \<and> (0::nat) < 2 \<and>
     (\<forall>m. 1 < m \<and> m < length ?ts \<longrightarrow> \<not> resolves_to (index_map [7]) (index_map [3, 4]) 0 0 (?ts ! m))"
    using later m7 m3 by simp
  have skip: "index_map [7] 9 = None \<or> index_map [3, 4] 3 = None" using m9 by simp
  have n: "(1::nat) < length (traces survey_b)" by (simp add: fields_survey_b(4))
  have w: "trace (traces survey_b ! 1) = Some [PInf, Fin 2]" by (rule fields_survey_b(5))
  have len: "length [PInf, Fin 2] = length (samples survey_b)" by (simp add: fields_survey_b(1))
  have last: "\<forall>m. 1 < m \<and> m < length (traces survey_b) \<longrightarrow>
        (fst (resolved survey_b ! m), fst (snd (resolved survey_b ! m))) \<noteq>
        (fst (resolved survey_b ! 1), fst (snd (resolved survey_b ! 1)))"
    by (simp add: fields_survey_b(4))
  note hyp2 = conjI [OF load_survey_b conjI [OF n conjI [OF w conjI [OF len last]]]]
  note inst = cube_assembly [OF s, of "index_map [7]" "index_map [3, 4]" ?ts 1 7 3 "[PInf, Fin 2]" 0 0
      9 3 "[(7, 3, Some [Fin 1, NaN]), (7, 3, Some [PInf, Fin 2])]" "Some [Fin 5, Fin 5]" "[]"
      100 init survey_b ?s 1 "[PInf, Fin 2]"]
  have cell: "build_cube (index_map [7]) (index_map [3, 4]) (np_zeros 1 2 2) ?ts ! 0 ! 0 =
      map nan_to_num [PInf, Fin 2]"
    by (rule inst [THEN conjunct2, THEN conjunct1, THEN mp, OF hyp])
  have same: "build_cube (index_map [7]) (index_map [3, 4]) (np_zeros 1 2 2)
     ([(7, 3, Some [Fin 1, NaN]), (7, 3, Some [PInf, Fin 2])] @ (9, 3, Some [Fin 5, Fin 5]) # []) =
   build_cube (index_map [7]) (index_map [3, 4]) (np_zeros 1 2 2)
     ([(7, 3, Some [Fin 1, NaN]), (7, 3, Some [PInf, Fin 2])] @ [])"
    by (rule inst [THEN conjunct2, THEN conjunct2, THEN conjunct1, THEN mp, OF skip])
  note fl = inst [THEN conjunct2, THEN conjunct2, THEN conjunct2, THEN mp, OF hyp2]
  note dat = fl [THEN conjunct2, THEN conjunct1]
  have ic: "inline_coords ?s = Some [7]"
    using fl [THEN conjunct2, THEN conjunct2, THEN conjunct1] by (simp only: axes_survey_b)
  have xc: "xline_coords ?s = Some [3]"
    using fl [THEN conjunct2, THEN conjunct2, THEN conjunct2, THEN conjunct1]
    by (simp only: axes_survey_b)
  have sh: "has_shape 1 1 2 (loaded_cube survey_b)"
    using fl [THEN conjunct2, THEN conjunct2, THEN conjunct2, THEN conjunct2, THEN conjunct1]
    by (simp add: axes_survey_b fields_survey_b(1) numeral_2_eq_2)
  from fl [THEN conjunct2, THEN conjunct2, THEN conjunct2, THEN conjunct2, THEN conjunct2]
  obtain p q where pq: "index_map (inline_axis survey_b) (fst (resolved survey_b ! 1)) = Some p \<and>
              index_map (xline_axis survey_b) (fst (snd (resolved survey_b ! 1))) = Some q \<and>
              p < length (inline_axis survey_b) \<and> q < length (xline_axis survey_b) \<and>
              inline_axis survey_b ! p = fst (resolved survey_b ! 1) \<and>
              xline_axis survey_b ! q = fst (snd (resolved survey_b ! 1)) \<and>
              loaded_cube survey_b ! p ! q = map nan_to_num [PInf, Fin 2]"
    by (elim exE) (rule that)
  from pq [THEN conjunct2, THEN conjunct2, THEN conjunct1] have p: "p = 0"
    by (simp add: axes_survey_b)
  from pq [THEN conjunct2, THEN conjunct2, THEN conjunct2, THEN conjunct1] have q: "q = 0"
    by (simp add: axes_survey_b)
  from pq [THEN conjunct2, THEN conjunct2, THEN conjunct2, THEN conjunct2, THEN conjunct2,
      THEN conjunct2]
  have c2: "loaded_cube survey_b ! 0 ! 0 = [Fin 0, Fin 2]" unfolding p q by simp
  have ex: "\<exists>d. data ?s = Some d \<and> has_shape 1 1 2 d \<and> d ! 0 ! 0 = [Fin 0, Fin 2]"
    by (rule exI [of _ "loaded_cube survey_b"]) (intro conjI dat sh c2)
  from cell have cell': "build_cube (index_map [7]) (index_map [3, 4]) (np_zeros 1 2 2) ?ts ! 0 ! 0 =
      [Fin 0, Fin 2]" by simp
  show ?thesis
    by (intro conjI s k m7 m3 m9 cell' same load_survey_b n w len ic xc ex)
qed

end
